theory Spec2Isabelle
  imports Complex_Main "HOL-Library.Word"
begin

unbundle bit_operations_syntax

section \<open>Machine integers and the conversion helpers\<close>

type_synonym u8 = "8 word"
type_synonym u16 = "16 word"
type_synonym u32 = "32 word"

text \<open>
  \<^verbatim>\<open>ToInt(const uint32_t *buf)\<close>: the pointer is a buffer together with an offset.
  The four words are shifted and or-ed as \<^verbatim>\<open>uint32_t\<close>, the result is read as
  \<^verbatim>\<open>int32_t\<close>.
\<close>

definition ToInt :: "u32 list \<Rightarrow> nat \<Rightarrow> int" where
  "ToInt buf k =
     sint (push_bit 24 (buf ! k) OR push_bit 16 (buf ! (k + 1))
           OR push_bit 8 (buf ! (k + 2)) OR buf ! (k + 3))"

text \<open>
  \<^verbatim>\<open>BuffToShort\<close>: \<^verbatim>\<open>((int16_t)(buf[0]) << 8) | buf[1]\<close>, returned as \<^verbatim>\<open>int16_t\<close>.
  The first word is truncated to 16 bits and sign-extended by the promotion to
  \<^verbatim>\<open>int\<close>, shifted, or-ed with the second word as \<^verbatim>\<open>uint32_t\<close>, and the return
  keeps the low 16 bits as a signed value.
\<close>

definition BuffToShort :: "u32 list \<Rightarrow> nat \<Rightarrow> int" where
  "BuffToShort buf k =
     sint (ucast (push_bit 8 (scast (ucast (buf ! k) :: u16) :: u32) OR buf ! (k + 1)) :: u16)"

text \<open>\<^verbatim>\<open>ToUShort(const uint8_t *buf)\<close> on the two bytes of the read buffer.\<close>

definition ToUShort :: "u8 \<Rightarrow> u8 \<Rightarrow> u16" where
  "ToUShort b0 b1 = push_bit 8 (ucast b0) OR ucast b1"

section \<open>The bus transport\<close>

text \<open>
  Every call the driver makes on its \<^verbatim>\<open>SPI\<close> object is recorded, oldest first.
\<close>

datatype spi_call =
    SpiWrite "u8 list"
  | SpiRead bool nat
  | SetClockRate nat
  | SetMSBFirst
  | SetSampleDataOnTrailingEdge
  | SetClockActiveLow
  | SetChipSelectActiveLow
  | InitAuto nat
  | SetAutoTransmitData "u8 list" nat
  | ConfigureAutoStall nat nat nat
  | StartAutoTrigger bool bool
  | StopAuto
  | ReadAutoReceivedData nat

text \<open>
  Modelled from the spec: the transport is an external collaborator (\<^verbatim>\<open>frc::SPI\<close>), of
  which the repository holds only the calls. The spec's simulated transport "stores the
  bytes WriteRegister sends and serves them back to reads": a byte-addressed register
  file \<open>mem\<close>; a written frame whose first byte has the write bit \<^verbatim>\<open>0x80\<close> stores its
  second byte at the 7-bit address; a written frame without the write bit is a read
  request and latches its address in \<open>req\<close>; a two-byte read returns the byte at
  \<open>req + 1\<close> and then the byte at \<open>req\<close> (the 16-bit register, high byte first).
  \<open>fifo\<close> holds the words the streaming engine has buffered and the driver has not yet
  drained (\<^verbatim>\<open>pollBufferedWordCount\<close>, \<^verbatim>\<open>drainBuffered\<close>).
\<close>

record SPI =
  calls :: "spi_call list"
  mem :: "u8 \<Rightarrow> u8"
  req :: u8
  fifo :: "u32 list"

definition spi_log :: "spi_call \<Rightarrow> SPI \<Rightarrow> SPI" where
  "spi_log c p = p\<lparr>calls := calls p @ [c]\<rparr>"

definition spi_Write :: "u8 \<Rightarrow> u8 \<Rightarrow> SPI \<Rightarrow> SPI" where
  "spi_Write b0 b1 p =
     (let q = spi_log (SpiWrite [b0, b1]) p in
      if b0 AND 0x80 \<noteq> 0 then q\<lparr>mem := (mem q)(b0 AND 0x7F := b1)\<rparr>
      else q\<lparr>req := b0\<rparr>)"

definition spi_Read :: "SPI \<Rightarrow> (u8 \<times> u8) \<times> SPI" where
  "spi_Read p = ((mem p (req p + 1), mem p (req p)), spi_log (SpiRead False 2) p)"

section \<open>Register transport\<close>

definition ReadRegister :: "u8 \<Rightarrow> SPI \<Rightarrow> u16 \<times> SPI" where
  "ReadRegister reg p =
     (let p1 = spi_Write (reg AND 0x7F) 0 p;
          ((b0, b1), p2) = spi_Read p1
      in (ToUShort b0 b1, p2))"

definition WriteRegister :: "u8 \<Rightarrow> u16 \<Rightarrow> SPI \<Rightarrow> SPI" where
  "WriteRegister reg val p =
     (let p1 = spi_Write (0x80 OR reg) (ucast (val AND 0xFF)) p
      in spi_Write (0x81 OR reg) (ucast (drop_bit 8 val)) p1)"

definition spi0 :: SPI where
  "spi0 = \<lparr>calls = [], mem = (\<lambda>_. 0), req = 0, fifo = []\<rparr>"

section \<open>Driver object\<close>

datatype IMUAxis = kX | kY | kZ

text \<open>
  The header \<^verbatim>\<open>adi/ADIS16470_IMU.h\<close> is not among the sources. The constants it
  declares and the code uses are parameters of the model, collected in one record.
  The enumeration \<^verbatim>\<open>ADIS16470CalibrationTime\<close> is represented by the integer value
  of its enumerator; the cast \<^verbatim>\<open>(uint16_t)\<close> is \<^const>\<open>word_of_int\<close>.
\<close>

record hdr =
  PROD_ID :: u8
  NULL_CNFG :: u8
  GLOB_CMD :: u8
  delta_angle_sf :: real
  rad_to_deg :: real
  deg_to_rad :: real
  grav :: real
  m_autospi_x_packet :: "u8 list"
  m_autospi_y_packet :: "u8 list"
  m_autospi_z_packet :: "u8 list"

type_synonym ADIS16470CalibrationTime = int

text \<open>
  The members of the object. \<open>m_spi\<close> says whether the pointer is non-null: the code
  resets it to \<^verbatim>\<open>nullptr\<close> after \<^verbatim>\<open>delete\<close>. \<open>m_auto_interrupt\<close> is deleted without
  being reset, so it is null, points to a live \<^verbatim>\<open>DigitalInput\<close>, or dangles; deleting
  a dangling pointer has no defined behaviour in C++, and the model stops with a fault
  there. \<open>m_acquire_task\<close> says whether the thread is joinable; \<open>port\<close> is the bus behind
  \<^verbatim>\<open>m_spi_port\<close>, which outlives the \<^verbatim>\<open>SPI\<close> handle; \<open>reports\<close> collects the messages
  sent to the driver station. Values of type \<^verbatim>\<open>double\<close> are modelled as real numbers.
\<close>

datatype ptr = Nullptr | Live | Dangling

datatype heap_fault = DoubleDelete

definition delete_ptr :: "ptr \<Rightarrow> heap_fault + ptr" where
  "delete_ptr q = (case q of Nullptr \<Rightarrow> Inr Nullptr | Live \<Rightarrow> Inr Dangling | Dangling \<Rightarrow> Inl DoubleDelete)"

record ADIS16470_IMU =
  m_yaw_axis :: IMUAxis
  m_calibration_time :: u16
  m_freed :: bool
  m_spi :: bool
  m_auto_interrupt :: ptr
  m_acquire_task :: bool
  port :: SPI
  reports :: "string list"
  m_integ_angle :: real
  m_gyro_x :: real
  m_gyro_y :: real
  m_gyro_z :: real
  m_accel_x :: real
  m_accel_y :: real
  m_accel_z :: real
  m_compAngleX :: real
  m_compAngleY :: real
  m_accelAngleX :: real
  m_accelAngleY :: real
  m_dt :: real
  m_alpha :: real
  m_tau :: real

definition Reset :: "ADIS16470_IMU \<Rightarrow> ADIS16470_IMU" where
  "Reset s = s\<lparr>m_integ_angle := 0\<rparr>"

text \<open>
  \<^verbatim>\<open>SwitchToStandardSPI\<close> from \<^verbatim>\<open>m_spi = new SPI(m_spi_port)\<close> on: the bus settings, the
  dummy read, and the check of the product ID.
\<close>

definition standard_spi_setup :: "hdr \<Rightarrow> ADIS16470_IMU \<Rightarrow> bool \<times> ADIS16470_IMU" where
  "standard_spi_setup h s =
     (let p0 = foldl (\<lambda>p c. spi_log c p) (port s)
                 [SetClockRate 2000000, SetMSBFirst, SetSampleDataOnTrailingEdge,
                  SetClockActiveLow, SetChipSelectActiveLow];
          (dummy, p1) = ReadRegister (PROD_ID h) p0;
          (prod_id, p2) = ReadRegister (PROD_ID h) p1;
          s1 = s\<lparr>m_spi := True, port := p2\<rparr>
      in if prod_id \<noteq> 16982 \<and> prod_id \<noteq> 16470
         then (False, s1\<lparr>reports := reports s1 @ [''Could not find ADIS16470!'']\<rparr>)
         else (True, s1))"

text \<open>
  The whole function: stop the thread, then, if a handle exists, \<^verbatim>\<open>delete m_spi\<close>,
  \<^verbatim>\<open>delete m_auto_interrupt\<close> and \<^verbatim>\<open>m_spi = nullptr\<close>, then the set-up above.
\<close>

definition SwitchToStandardSPI ::
  "hdr \<Rightarrow> ADIS16470_IMU \<Rightarrow> heap_fault + bool \<times> ADIS16470_IMU" where
  "SwitchToStandardSPI h s =
     (let s1 = (if \<not> m_freed s then s\<lparr>m_freed := True, m_acquire_task := False\<rparr> else s)
      in if m_spi s1 then
           (case delete_ptr (m_auto_interrupt s1) of
              Inl e \<Rightarrow> Inl e
            | Inr q \<Rightarrow> Inr (standard_spi_setup h (s1\<lparr>m_auto_interrupt := q, m_spi := False\<rparr>)))
         else Inr (standard_spi_setup h s1))"

text \<open>\<^verbatim>\<open>SwitchToAutoSPI\<close> from \<^verbatim>\<open>m_auto_interrupt = new DigitalInput(26)\<close> on.\<close>

definition auto_start :: "hdr \<Rightarrow> ADIS16470_IMU \<Rightarrow> ADIS16470_IMU" where
  "auto_start h s =
     (let s1 = s\<lparr>m_auto_interrupt := Live\<rparr>;
          pkt = (case m_yaw_axis s1 of
                   kX \<Rightarrow> m_autospi_x_packet h
                 | kY \<Rightarrow> m_autospi_y_packet h
                 | kZ \<Rightarrow> m_autospi_z_packet h);
          p = foldl (\<lambda>p c. spi_log c p) (port s1)
                [InitAuto 8200, SetAutoTransmitData pkt 2, ConfigureAutoStall 5 1000 1,
                 StartAutoTrigger True False];
          s2 = s1\<lparr>port := p\<rparr>;
          s3 = (if m_freed s2 then s2\<lparr>m_freed := False, m_acquire_task := True\<rparr> else s2)
      in Reset s3)"

definition SwitchToAutoSPI ::
  "hdr \<Rightarrow> ADIS16470_IMU \<Rightarrow> heap_fault + bool \<times> ADIS16470_IMU" where
  "SwitchToAutoSPI h s =
     (if \<not> m_spi s then
        (case SwitchToStandardSPI h s of
           Inl e \<Rightarrow> Inl e
         | Inr (False, s1) \<Rightarrow> Inr (False, s1)
         | Inr (True, s1) \<Rightarrow> Inr (True, auto_start h s1))
      else Inr (True, auto_start h s))"

definition ConfigCalTime ::
  "hdr \<Rightarrow> ADIS16470CalibrationTime \<Rightarrow> ADIS16470_IMU \<Rightarrow> heap_fault + int \<times> ADIS16470_IMU" where
  "ConfigCalTime h new_cal_time s =
     (if m_calibration_time s = word_of_int new_cal_time then Inr (1, s)
      else case SwitchToStandardSPI h s of
             Inl e \<Rightarrow> Inl e
           | Inr (False, s1) \<Rightarrow> Inr (2, s1)
           | Inr (True, s1) \<Rightarrow>
               (let s2 = s1\<lparr>m_calibration_time := word_of_int new_cal_time\<rparr>;
                    s3 = s2\<lparr>port := WriteRegister (NULL_CNFG h)
                                      (m_calibration_time s2 OR 0x700) (port s2)\<rparr>
                in case SwitchToAutoSPI h s3 of
                     Inl e \<Rightarrow> Inl e
                   | Inr (ok, s4) \<Rightarrow> Inr (0, s4)))"

definition Calibrate :: "hdr \<Rightarrow> ADIS16470_IMU \<Rightarrow> heap_fault + ADIS16470_IMU" where
  "Calibrate h s =
     (case SwitchToStandardSPI h s of
        Inl e \<Rightarrow> Inl e
      | Inr (False, s1) \<Rightarrow> Inr s1
      | Inr (True, s1) \<Rightarrow>
          (case SwitchToAutoSPI h (s1\<lparr>port := WriteRegister (GLOB_CMD h) 0x0001 (port s1)\<rparr>) of
             Inl e \<Rightarrow> Inl e
           | Inr (ok, s2) \<Rightarrow> Inr s2))"

definition SetYawAxis ::
  "hdr \<Rightarrow> IMUAxis \<Rightarrow> ADIS16470_IMU \<Rightarrow> heap_fault + int \<times> ADIS16470_IMU" where
  "SetYawAxis h yaw_axis s =
     (if m_yaw_axis s = yaw_axis then Inr (1, s)
      else case SwitchToStandardSPI h s of
             Inl e \<Rightarrow> Inl e
           | Inr (False, s1) \<Rightarrow> Inr (2, s1)
           | Inr (True, s1) \<Rightarrow>
               (case SwitchToAutoSPI h (s1\<lparr>m_yaw_axis := yaw_axis\<rparr>) of
                  Inl e \<Rightarrow> Inl e
                | Inr (ok, s2) \<Rightarrow> Inr (0, s2)))"

section \<open>Complementary filter\<close>

text \<open>
  \<^verbatim>\<open>M_PI\<close> and the arithmetic on \<^verbatim>\<open>double\<close> are modelled over the reals. The C
  library functions \<^verbatim>\<open>atan2f\<close> and \<^verbatim>\<open>sqrtf\<close> are taken as the mathematical
  functions they approximate.
\<close>

definition M_PI :: real where
  "M_PI = pi"

definition atan2f :: "real \<Rightarrow> real \<Rightarrow> real" where
  "atan2f y x =
     (if 0 < x then arctan (y / x)
      else if x < 0 then (if 0 \<le> y then arctan (y / x) + pi else arctan (y / x) - pi)
      else if 0 < y then pi / 2
      else if y < 0 then - (pi / 2)
      else 0)"

definition sqrtf :: "real \<Rightarrow> real" where
  "sqrtf x = sqrt x"

definition FormatFastConverge :: "real \<Rightarrow> real \<Rightarrow> real" where
  "FormatFastConverge compAngle accAngle =
     (if compAngle > accAngle + M_PI then compAngle - 2 * M_PI
      else if accAngle > compAngle + M_PI then compAngle + 2 * M_PI
      else compAngle)"

text \<open>The two \<^verbatim>\<open>while\<close> loops of \<^verbatim>\<open>FormatRange0to2PI\<close>, one after the other.\<close>

function FormatRange0to2PI_down :: "real \<Rightarrow> real" where
  "FormatRange0to2PI_down compAngle =
     (if compAngle \<ge> 2 * M_PI then FormatRange0to2PI_down (compAngle - 2 * M_PI)
      else compAngle)"
  by pat_completeness auto
termination
proof (relation "measure (\<lambda>x. nat \<lfloor>x / (2 * pi)\<rfloor>)")
  show "wf (measure (\<lambda>x. nat \<lfloor>x / (2 * pi)\<rfloor>))" by simp
next
  fix compAngle :: real
  assume a: "2 * M_PI \<le> compAngle"
  have "(compAngle - 2 * M_PI) / (2 * pi) = compAngle / (2 * pi) - 1"
    by (simp add: M_PI_def diff_divide_distrib)
  moreover have "1 \<le> compAngle / (2 * pi)"
    using a by (simp add: M_PI_def le_divide_eq)
  then have "1 \<le> \<lfloor>compAngle / (2 * pi)\<rfloor>"
    by (simp add: le_floor_iff)
  ultimately show "(compAngle - 2 * M_PI, compAngle) \<in> measure (\<lambda>x. nat \<lfloor>x / (2 * pi)\<rfloor>)"
    by simp
qed

function FormatRange0to2PI_up :: "real \<Rightarrow> real" where
  "FormatRange0to2PI_up compAngle =
     (if compAngle < 0 then FormatRange0to2PI_up (compAngle + 2 * M_PI)
      else compAngle)"
  by pat_completeness auto
termination
proof (relation "measure (\<lambda>x. nat \<lceil>- x / (2 * pi)\<rceil>)")
  show "wf (measure (\<lambda>x. nat \<lceil>- x / (2 * pi)\<rceil>))" by simp
next
  fix compAngle :: real
  assume a: "compAngle < 0"
  define q where "q = - compAngle / (2 * pi)"
  have e: "- (compAngle + 2 * M_PI) / (2 * pi) = q - 1"
    by (simp add: q_def M_PI_def diff_divide_distrib add_divide_distrib)
  have "0 < q"
    unfolding q_def using a by (intro divide_pos_pos) simp_all
  then have "1 \<le> \<lceil>q\<rceil>"
    by (simp add: less_ceiling_iff)
  then have "nat \<lceil>q - 1\<rceil> < nat \<lceil>q\<rceil>"
    by simp
  then show "(compAngle + 2 * M_PI, compAngle) \<in> measure (\<lambda>x. nat \<lceil>- x / (2 * pi)\<rceil>)"
    by (simp only: in_measure e q_def [symmetric])
qed

declare FormatRange0to2PI_down.simps [simp del]
declare FormatRange0to2PI_up.simps [simp del]

definition FormatRange0to2PI :: "real \<Rightarrow> real" where
  "FormatRange0to2PI compAngle = FormatRange0to2PI_up (FormatRange0to2PI_down compAngle)"

definition FormatAccelRange :: "real \<Rightarrow> real \<Rightarrow> real" where
  "FormatAccelRange accelAngle accelZ =
     (if accelZ < 0 then M_PI - accelAngle
      else if accelZ > 0 \<and> accelAngle < 0 then 2 * M_PI + accelAngle
      else accelAngle)"

definition CompFilterProcess :: "ADIS16470_IMU \<Rightarrow> real \<Rightarrow> real \<Rightarrow> real \<Rightarrow> real" where
  "CompFilterProcess s compAngle accelAngle omega =
     (let c1 = FormatFastConverge compAngle accelAngle;
          gyroAngle = c1 + omega * m_dt s;
          c2 = m_alpha s * gyroAngle + (1 - m_alpha s) * accelAngle
      in FormatRange0to2PI c2)"

section \<open>The range normalisation in binary64 arithmetic\<close>

text \<open>
  C++ evaluates the loops of \<^verbatim>\<open>FormatRange0to2PI\<close> in IEEE 754 binary64 with rounding
  to nearest, ties to even. Whether the loops end, and on which value, depends on that
  rounding, so the function is modelled a second time. A finite \<^verbatim>\<open>double\<close> is the real
  number it denotes; an addition or a subtraction returns the exact result rounded to
  53 significant bits (\<open>b64_round\<close>: the spacing \<open>b64_ulp\<close> of the doubles around the
  exact result, and the nearest multiple of it). Overflow does not arise, since both
  loops move the value towards zero. \<open>M_PI_b64\<close> is the \<^verbatim>\<open>double\<close> nearest to \<open>\<pi>\<close>,
  \<^verbatim>\<open>0x400921FB54442D18\<close>; doubling it is exact. A loop that does not end has the
  value \<open>None\<close>.
\<close>

definition b64_ulp :: "real \<Rightarrow> real" where
  "b64_ulp x = 2 powr real_of_int (max \<lfloor>log 2 \<bar>x\<bar>\<rfloor> (- 1022) - 52)"

definition round_half_even :: "real \<Rightarrow> int" where
  "round_half_even q =
     (let n = \<lfloor>q\<rfloor> in
      if q - of_int n < 1 / 2 then n
      else if 1 / 2 < q - of_int n then n + 1
      else if even n then n else n + 1)"

definition b64_round :: "real \<Rightarrow> real" where
  "b64_round x = (if x = 0 then 0 else of_int (round_half_even (x / b64_ulp x)) * b64_ulp x)"

definition M_PI_b64 :: real where
  "M_PI_b64 = 884279719003555 / 2 ^ 48"

partial_function (option) FormatRange0to2PI_down_b64 :: "real \<Rightarrow> real option" where
  "FormatRange0to2PI_down_b64 compAngle =
     (if compAngle \<ge> 2 * M_PI_b64
      then FormatRange0to2PI_down_b64 (b64_round (compAngle - 2 * M_PI_b64))
      else Some compAngle)"

partial_function (option) FormatRange0to2PI_up_b64 :: "real \<Rightarrow> real option" where
  "FormatRange0to2PI_up_b64 compAngle =
     (if compAngle < 0
      then FormatRange0to2PI_up_b64 (b64_round (compAngle + 2 * M_PI_b64))
      else Some compAngle)"

definition FormatRange0to2PI_b64 :: "real \<Rightarrow> real option" where
  "FormatRange0to2PI_b64 compAngle =
     (case FormatRange0to2PI_down_b64 compAngle of
        None \<Rightarrow> None
      | Some c \<Rightarrow> FormatRange0to2PI_up_b64 c)"

text \<open>
  \<^verbatim>\<open>FormatFastConverge\<close> in the same arithmetic: each sum is rounded before it is
  compared, and so is the shifted angle.
\<close>

definition FormatFastConverge_b64 :: "real \<Rightarrow> real \<Rightarrow> real" where
  "FormatFastConverge_b64 compAngle accAngle =
     (if compAngle > b64_round (accAngle + M_PI_b64)
      then b64_round (compAngle - 2 * M_PI_b64)
      else if accAngle > b64_round (compAngle + M_PI_b64)
      then b64_round (compAngle + 2 * M_PI_b64)
      else compAngle)"

section \<open>Acquisition loop\<close>

text \<open>The local variables of \<^verbatim>\<open>Acquire\<close>; \<open>buffer\<close> is the array of 570 words.\<close>

record acq =
  buffer :: "u32 list"
  data_count :: int
  data_remainder :: int
  data_to_read :: int
  previous_timestamp :: u32
  delta_angle :: real
  gyro_x :: real
  gyro_y :: real
  gyro_z :: real
  accel_x :: real
  accel_y :: real
  accel_z :: real
  gyro_x_si :: real
  gyro_y_si :: real
  gyro_z_si :: real
  accel_x_si :: real
  accel_y_si :: real
  accel_z_si :: real
  compAngleX :: real
  compAngleY :: real
  accelAngleX :: real
  accelAngleY :: real
  first_run :: bool

definition dataset_len :: int where
  "dataset_len = 19"

definition num_buffers :: int where
  "num_buffers = 30"

text \<open>
  A write past the end of \<open>buffer\<close> has no defined behaviour in C++; the model stops
  with a fault there.
\<close>

datatype fault = BufferOverrun

text \<open>The remainder of C++ integer division, which truncates towards zero.\<close>

definition c_rem :: "int \<Rightarrow> int \<Rightarrow> int" where
  "c_rem a b = sgn a * (\<bar>a\<bar> mod \<bar>b\<bar>)"

text \<open>
  The body of the \<^verbatim>\<open>for\<close> loop, for the frame that starts at index \<open>i\<close>. The
  difference of the timestamps is taken in \<^verbatim>\<open>uint32_t\<close> and wraps. When it is 0 the
  C++ quotient \<^verbatim>\<open>500.0 / 0\<close> is infinite and the scaled delta-angle is 0; in HOL
  \<open>x / 0 = 0\<close>, which gives the same delta-angle.
\<close>

definition Acquire_frame ::
  "hdr \<Rightarrow> nat \<Rightarrow> ADIS16470_IMU \<times> acq \<Rightarrow> ADIS16470_IMU \<times> acq" where
  "Acquire_frame h i sl =
     (let s = fst sl; l = snd sl; buf = buffer l;
          elapsed = real (unat (buf ! i - previous_timestamp l));
          s1 = s\<lparr>m_dt := elapsed / 1000000\<rparr>;
          d = (real_of_int (ToInt buf (i + 3)) * delta_angle_sf h) / (500 / elapsed);
          gx = real_of_int (BuffToShort buf (i + 7)) / 10;
          gy = real_of_int (BuffToShort buf (i + 9)) / 10;
          gz = real_of_int (BuffToShort buf (i + 11)) / 10;
          ax = real_of_int (BuffToShort buf (i + 13)) / 800;
          ay = real_of_int (BuffToShort buf (i + 15)) / 800;
          az = real_of_int (BuffToShort buf (i + 17)) / 800;
          gxs = gx * deg_to_rad h; gys = gy * deg_to_rad h; gzs = gz * deg_to_rad h;
          axs = ax * grav h; ays = ay * grav h; azs = az * grav h;
          s2 = s1\<lparr>m_alpha := m_tau s1 / (m_tau s1 + m_dt s1)\<rparr>;
          rawX = atan2f axs (sqrtf ((ays * ays) + (azs * azs)));
          rawY = atan2f ays (sqrtf ((axs * axs) + (azs * azs)));
          aX = (if first_run l then rawX else FormatAccelRange rawX azs);
          aY = (if first_run l then rawY else FormatAccelRange rawY azs);
          cX = (if first_run l then aX else CompFilterProcess s2 (compAngleX l) aX (- gys));
          cY = (if first_run l then aY else CompFilterProcess s2 (compAngleY l) aY gxs);
          s3 = s2\<lparr>m_integ_angle := (if first_run l then 0 else m_integ_angle s2 + d),
                  m_gyro_x := gx, m_gyro_y := gy, m_gyro_z := gz,
                  m_accel_x := ax, m_accel_y := ay, m_accel_z := az,
                  m_compAngleX := cX * rad_to_deg h, m_compAngleY := cY * rad_to_deg h,
                  m_accelAngleX := aX * rad_to_deg h, m_accelAngleY := aY * rad_to_deg h\<rparr>;
          l1 = l\<lparr>previous_timestamp := buf ! i, delta_angle := d,
                  gyro_x := gx, gyro_y := gy, gyro_z := gz,
                  accel_x := ax, accel_y := ay, accel_z := az,
                  gyro_x_si := gxs, gyro_y_si := gys, gyro_z_si := gzs,
                  accel_x_si := axs, accel_y_si := ays, accel_z_si := azs,
                  compAngleX := cX, compAngleY := cY,
                  accelAngleX := aX, accelAngleY := aY,
                  first_run := False\<rparr>
      in (s3, l1))"

text \<open>\<^verbatim>\<open>for (int i = 0; i < data_to_read; i += dataset_len)\<close>, entered at index \<open>i\<close>.\<close>

function Acquire_for :: "hdr \<Rightarrow> nat \<Rightarrow> ADIS16470_IMU \<times> acq \<Rightarrow> ADIS16470_IMU \<times> acq" where
  "Acquire_for h i sl =
     (if int i < data_to_read (snd sl)
      then Acquire_for h (i + nat dataset_len) (Acquire_frame h i sl)
      else sl)"
  by pat_completeness auto
termination
  by (relation "measure (\<lambda>(h, i, sl). nat (data_to_read (snd sl)) - i)")
     (auto simp add: dataset_len_def Acquire_frame_def Let_def)

declare Acquire_for.simps [simp del]

text \<open>
  One iteration of \<^verbatim>\<open>while (!m_freed)\<close>, after the wait. The first call of
  \<^verbatim>\<open>ReadAutoReceivedData\<close> asks for no words and returns how many are buffered; the
  second moves \<open>data_to_read\<close> words from the transport to the front of \<open>buffer\<close>.
\<close>

definition Acquire_poll ::
  "hdr \<Rightarrow> ADIS16470_IMU \<times> acq \<Rightarrow> fault + ADIS16470_IMU \<times> acq" where
  "Acquire_poll h sl =
     (let s = fst sl; l = snd sl;
          p1 = spi_log (ReadAutoReceivedData 0) (port s);
          dc = int (length (fifo p1));
          dr = c_rem dc dataset_len;
          dtr = dc - dr;
          l1 = l\<lparr>data_count := dc, data_remainder := dr, data_to_read := dtr\<rparr>
      in if dtr > dataset_len * num_buffers then Inl BufferOverrun
         else
           (let n = nat dtr;
                p2 = (spi_log (ReadAutoReceivedData n) p1)\<lparr>fifo := drop n (fifo p1)\<rparr>;
                l2 = l1\<lparr>buffer := take n (fifo p1) @ drop n (buffer l1)\<rparr>
            in Inr (Acquire_for h 0 (s\<lparr>port := p2\<rparr>, l2))))"

text \<open>
  The thread function. Its environment is a script: the words that reach the transport
  during each wait; when the script ends the owner has set \<open>m_freed\<close>. The locals that
  the code leaves uninitialised start with the values of \<open>junk\<close>.
\<close>

definition acq_init :: "acq \<Rightarrow> acq" where
  "acq_init junk =
     junk\<lparr>data_to_read := 0, previous_timestamp := 0, accelAngleY := 0, first_run := True\<rparr>"

fun Acquire_while ::
  "hdr \<Rightarrow> u32 list list \<Rightarrow> ADIS16470_IMU \<times> acq \<Rightarrow> fault + ADIS16470_IMU \<times> acq" where
  "Acquire_while h [] sl = Inr (fst sl\<lparr>m_freed := True\<rparr>, snd sl)"
| "Acquire_while h (arrived # script) sl =
     (if m_freed (fst sl) then Inr sl
      else
        (let s = fst sl;
             s1 = s\<lparr>port := (port s)\<lparr>fifo := fifo (port s) @ arrived\<rparr>\<rparr>
         in case Acquire_poll h (s1, snd sl) of
              Inl e \<Rightarrow> Inl e
            | Inr sl1 \<Rightarrow> Acquire_while h script sl1))"

definition Acquire ::
  "hdr \<Rightarrow> u32 list list \<Rightarrow> acq \<Rightarrow> ADIS16470_IMU \<Rightarrow> fault + ADIS16470_IMU \<times> acq" where
  "Acquire h script junk s = Acquire_while h script (s, acq_init junk)"

section \<open>The frame layout in the words of the specification\<close>

text \<open>
  The specification reads the delta-angle field as the big-endian signed 32-bit join of
  four bytes: the unsigned value with the first byte most significant, taken in two's
  complement.
\<close>

definition be_int32 :: "nat \<Rightarrow> nat \<Rightarrow> nat \<Rightarrow> nat \<Rightarrow> int" where
  "be_int32 b0 b1 b2 b3 =
     (let u = int b0 * 2 ^ 24 + int b1 * 2 ^ 16 + int b2 * 2 ^ 8 + int b3
      in if u < 2 ^ 31 then u else u - 2 ^ 32)"

section \<open>Sample inputs\<close>

text \<open>
  One instance of the header constants, a driver object in streaming mode, a set of
  locals, and two frames of 19 words: the first with timestamp 1000, delta-angle 4096 and
  an acceleration of +1 g on Z, the second with timestamp 1500, delta-angle 65536 and
  -1 g on Z.
\<close>

definition hdr0 :: hdr where
  "hdr0 = \<lparr>PROD_ID = 0x72, NULL_CNFG = 0x66, GLOB_CMD = 0x68,
            delta_angle_sf = 2160 / 2147483648, rad_to_deg = 57.2957795,
            deg_to_rad = 0.0174532, grav = 9.81,
            m_autospi_x_packet = [0x26, 0x00], m_autospi_y_packet = [0x2A, 0x00],
            m_autospi_z_packet = [0x2E, 0x00]\<rparr>"

definition imu0 :: ADIS16470_IMU where
  "imu0 = \<lparr>m_yaw_axis = kZ, m_calibration_time = 7, m_freed = False, m_spi = True,
            m_auto_interrupt = Live, m_acquire_task = True, port = spi0, reports = [],
            m_integ_angle = 5, m_gyro_x = 0, m_gyro_y = 0, m_gyro_z = 0,
            m_accel_x = 0, m_accel_y = 0, m_accel_z = 0,
            m_compAngleX = 0, m_compAngleY = 0, m_accelAngleX = 0, m_accelAngleY = 0,
            m_dt = 0, m_alpha = 0, m_tau = 1\<rparr>"

definition acq0 :: acq where
  "acq0 = \<lparr>buffer = replicate 570 0, data_count = 0, data_remainder = 0, data_to_read = 0,
            previous_timestamp = 0, delta_angle = 0,
            gyro_x = 0, gyro_y = 0, gyro_z = 0, accel_x = 0, accel_y = 0, accel_z = 0,
            gyro_x_si = 0, gyro_y_si = 0, gyro_z_si = 0,
            accel_x_si = 0, accel_y_si = 0, accel_z_si = 0,
            compAngleX = 0, compAngleY = 0, accelAngleX = 0, accelAngleY = 0,
            first_run = False\<rparr>"

definition frame1 :: "u32 list" where
  "frame1 = [1000, 0, 0, 0x00, 0x00, 0x10, 0x00, 0, 0, 0, 0, 0, 0, 0, 0, 0, 0, 0x03, 0x20]"

definition frame2 :: "u32 list" where
  "frame2 = [1500, 0, 0, 0x00, 0x01, 0x00, 0x00, 0, 0, 0, 0, 0, 0, 0, 0, 0, 0, 0xFC, 0xE0]"

text \<open>
  \<open>fresh0\<close>: the acquisition thread has just started and both frames are in the buffer.
  \<open>first_frame2\<close>: the second frame alone, processed as the first frame after a start.
\<close>

definition fresh0 :: "ADIS16470_IMU \<times> acq" where
  "fresh0 = (imu0, acq_init (acq0\<lparr>buffer := frame1 @ frame2\<rparr>))"

definition first_frame2 :: "ADIS16470_IMU \<times> acq" where
  "first_frame2 = Acquire_frame hdr0 0 (imu0, acq_init (acq0\<lparr>buffer := frame2\<rparr>))"

section \<open>Bit-level facts about the protocol constants\<close>

lemma bit_0x80: "bit (0x80::int) n \<longleftrightarrow> n = 7"
proof -
  have "bit (push_bit 7 (1::int)) n \<longleftrightarrow> n = 7"
    by (auto simp add: bit_push_bit_iff bit_1_iff simp del: push_bit_of_1)
  then show ?thesis by simp
qed

lemma bit_0x7F: "bit (0x7F::int) n \<longleftrightarrow> n < 7"
proof -
  have "bit (mask 7 :: int) n \<longleftrightarrow> n < 7"
    by (auto simp add: bit_mask_iff)
  then show ?thesis by (simp add: mask_eq_exp_minus_1)
qed

lemma bit_0x81: "bit (0x81::int) n \<longleftrightarrow> n = 7 \<or> n = 0"
proof -
  have "bit (push_bit 7 (1::int) OR 1) n \<longleftrightarrow> n = 7 \<or> n = 0"
    by (auto simp add: bit_or_iff bit_push_bit_iff bit_1_iff simp del: push_bit_of_1)
  then show ?thesis by simp
qed

lemma bit_0xFF: "bit (0xFF::int) n \<longleftrightarrow> n < 8"
proof -
  have "bit (mask 8 :: int) n \<longleftrightarrow> n < 8"
    by (auto simp add: bit_mask_iff)
  then show ?thesis by (simp add: mask_eq_exp_minus_1)
qed

lemmas bit_consts = bit_0x80 bit_0x7F bit_0x81 bit_0xFF

lemma reg7_bits:
  assumes "(reg::u8) \<le> 0x7F" and "bit reg n" shows "n < 7"
proof -
  have "reg < 2 ^ 7" using assms(1) by (simp add: word_le_nat_alt word_less_nat_alt)
  then have "take_bit 7 reg = reg" by (simp add: less_mask_eq take_bit_eq_mask)
  then have "bit (take_bit 7 reg) n" using assms(2) by simp
  then show ?thesis by (simp add: bit_take_bit_iff)
qed

lemma write_bit_0x80: "((0x80::u8) OR reg) AND 0x80 \<noteq> 0"
proof -
  have "bit (((0x80::u8) OR reg) AND 0x80) 7" by (simp add: bit_simps bit_consts)
  then show ?thesis by auto
qed

lemma write_bit_0x81: "((0x81::u8) OR reg) AND 0x80 \<noteq> 0"
proof -
  have "bit (((0x81::u8) OR reg) AND 0x80) 7" by (simp add: bit_simps bit_consts)
  then show ?thesis by auto
qed

lemma read_request_no_write_bit: "((reg::u8) AND 0x7F) AND 0x80 = 0"
  by (rule bit_word_eqI) (auto simp add: bit_simps bit_consts)

lemma addr_0x80: "reg \<le> 0x7F \<Longrightarrow> ((0x80::u8) OR reg) AND 0x7F = reg"
  by (rule bit_word_eqI) (auto simp add: bit_simps bit_consts dest: reg7_bits)

lemma addr_0x7F: "reg \<le> 0x7F \<Longrightarrow> (reg::u8) AND 0x7F = reg"
  by (rule bit_word_eqI) (auto simp add: bit_simps bit_consts dest: reg7_bits)

lemma even_succ_or: "even (reg::u8) \<Longrightarrow> reg + 1 = reg OR 1"
  by (simp add: or_one_eq)

lemma addr_0x81: "reg \<le> 0x7F \<Longrightarrow> even reg \<Longrightarrow> ((0x81::u8) OR reg) AND 0x7F = reg + 1"
  apply (simp only: even_succ_or)
  apply (rule bit_word_eqI)
  apply (auto simp add: bit_simps bit_consts bit_1_iff dest: reg7_bits)
  done

lemma or_0x81_even: "even reg \<Longrightarrow> (0x81::u8) OR reg = 0x80 OR (reg + 1)"
  apply (simp only: even_succ_or)
  apply (rule bit_word_eqI)
  apply (auto simp add: bit_simps bit_consts bit_1_iff)
  done

lemma or_0x81_odd: "odd reg \<Longrightarrow> (0x81::u8) OR reg = 0x80 OR reg"
  by (rule bit_word_eqI) (auto simp add: bit_simps bit_consts bit_0)

lemma join_bytes: 
  "push_bit 8 (ucast (ucast (drop_bit 8 v) :: u8) :: u16) OR ucast (ucast (v AND 0xFF) :: u8) = (v::u16)"
  by (rule bit_word_eqI) (auto simp add: bit_simps bit_consts)

lemma low_byte: "unat (ucast ((v::u16) AND 0xFF) :: u8) = unat v mod 256"
proof -
  have "(ucast (v AND 0xFF) :: u8) = ucast v"
    by (rule bit_word_eqI) (auto simp add: bit_simps bit_consts)
  then show ?thesis by (simp add: unsigned_ucast_eq take_bit_eq_mod)
qed

lemma high_byte: "unat (ucast (drop_bit 8 (v::u16)) :: u8) = unat v div 256"
proof -
  have "unat v < 65536" using unsigned_less [of v, where ?'a = nat] by simp
  then have "unat v div 256 < 256" by simp
  then show ?thesis
    by (simp add: unsigned_ucast_eq unat_drop_bit_eq take_bit_eq_mod drop_bit_eq_div unat_div)
qed

lemma calls_WriteRegister:
  "calls (WriteRegister reg val p) =
     calls p @ [SpiWrite [0x80 OR reg, ucast (val AND 0xFF)],
                SpiWrite [0x81 OR reg, ucast (drop_bit 8 val)]]"
  by (simp add: WriteRegister_def spi_Write_def spi_log_def Let_def)

lemma write_bit_set: "((0x80::u8) OR reg) AND 0x80 = 0x80"
  by (rule bit_word_eqI) (auto simp add: bit_simps bit_consts)

lemma addr_masked_0x80: "((0x80::u8) OR reg) AND 0x7F = reg AND 0x7F"
  by (rule bit_word_eqI) (auto simp add: bit_simps bit_consts)

lemma addr_masked_0x81: "even reg \<Longrightarrow> ((0x81::u8) OR reg) AND 0x7F = (reg AND 0x7F) + 1"
proof -
  assume e: "even reg"
  have "even (reg AND 0x7F)" using e by (simp add: even_and_iff)
  then have "(reg AND 0x7F) + 1 = (reg AND 0x7F) OR 1" by (rule even_succ_or)
  moreover have "((0x81::u8) OR reg) AND 0x7F = (reg AND 0x7F) OR 1"
    by (rule bit_word_eqI) (auto simp add: bit_simps bit_consts bit_1_iff)
  ultimately show ?thesis by simp
qed

lemma ToUShort_unat: "unat (ToUShort b0 b1) = 256 * unat b0 + unat b1"
proof -
  define n where "n = unat b0 * 2 ^ 8 + unat b1"
  have d: "push_bit 8 (ucast b0 :: u16) AND ucast b1 = 0"
    by (rule bit_word_eqI) (auto simp add: bit_simps dest: bit_imp_le_length)
  have p: "ToUShort b0 b1 = push_bit 8 (ucast b0) + ucast b1"
    by (simp only: ToUShort_def disjunctive_add_eq_or [OF d])
  have s: "push_bit 8 (ucast b0 :: u16) + ucast b1 = of_nat n"
    unfolding n_def
    by (simp only: push_bit_eq_mult of_nat_add of_nat_mult of_nat_power of_nat_numeral
          of_nat_unat)
  have "unat b0 < 256" "unat b1 < 256"
    using unsigned_less [of b0, where ?'a = nat] unsigned_less [of b1, where ?'a = nat]
    by simp_all
  then have lt: "n < 2 ^ 16" unfolding n_def by simp
  have "unat (of_nat n :: u16) = n"
    using lt by (simp add: unat_of_nat)
  then have "unat (ToUShort b0 b1) = n" by (simp only: p s)
  then show ?thesis unfolding n_def by simp
qed

lemma calls_ReadRegister:
  "calls (snd (ReadRegister reg p)) = calls p @ [SpiWrite [reg AND 0x7F, 0x00], SpiRead False 2]"
  by (simp add: ReadRegister_def spi_Write_def spi_Read_def spi_log_def Let_def
      read_request_no_write_bit)

section \<open>Projections of one frame step\<close>

lemma port_Acquire_frame [simp]:
  "port (fst (Acquire_frame h i sl)) = port (fst sl)"
  by (simp add: Acquire_frame_def Let_def)

lemma buffer_Acquire_frame [simp]:
  "buffer (snd (Acquire_frame h i sl)) = buffer (snd sl)"
  by (simp add: Acquire_frame_def Let_def)

lemma data_to_read_Acquire_frame [simp]:
  "data_to_read (snd (Acquire_frame h i sl)) = data_to_read (snd sl)"
  by (simp add: Acquire_frame_def Let_def)

lemma previous_timestamp_Acquire_frame [simp]:
  "previous_timestamp (snd (Acquire_frame h i sl)) = buffer (snd sl) ! i"
  by (simp add: Acquire_frame_def Let_def)

lemma first_run_Acquire_frame [simp]:
  "first_run (snd (Acquire_frame h i sl)) = False"
  by (simp add: Acquire_frame_def Let_def)

lemma delta_angle_Acquire_frame:
  "delta_angle (snd (Acquire_frame h i sl)) =
     real_of_int (ToInt (buffer (snd sl)) (i + 3)) * delta_angle_sf h
       / (500 / real (unat (buffer (snd sl) ! i - previous_timestamp (snd sl))))"
  by (simp add: Acquire_frame_def Let_def)

lemma m_dt_Acquire_frame:
  "m_dt (fst (Acquire_frame h i sl)) =
     real (unat (buffer (snd sl) ! i - previous_timestamp (snd sl))) / 1000000"
  by (simp add: Acquire_frame_def Let_def)

lemma m_integ_angle_Acquire_frame:
  "m_integ_angle (fst (Acquire_frame h i sl)) =
     (if first_run (snd sl) then 0
      else m_integ_angle (fst sl) + delta_angle (snd (Acquire_frame h i sl)))"
  by (simp add: Acquire_frame_def Let_def)

lemma accel_si_Acquire_frame:
  "accel_x_si (snd (Acquire_frame h i sl)) =
     real_of_int (BuffToShort (buffer (snd sl)) (i + 13)) / 800 * grav h"
  "accel_y_si (snd (Acquire_frame h i sl)) =
     real_of_int (BuffToShort (buffer (snd sl)) (i + 15)) / 800 * grav h"
  "accel_z_si (snd (Acquire_frame h i sl)) =
     real_of_int (BuffToShort (buffer (snd sl)) (i + 17)) / 800 * grav h"
  by (simp_all add: Acquire_frame_def Let_def)

lemma sample_words:
  "ToInt (frame1 @ frame2) 3 = 4096" "ToInt (frame1 @ frame2) 22 = 65536"
  "(frame1 @ frame2) ! 0 = 1000" "(frame1 @ frame2) ! 19 = 1500"
  "BuffToShort (frame1 @ frame2) 13 = 0" "BuffToShort (frame1 @ frame2) 15 = 0"
  "BuffToShort (frame1 @ frame2) 17 = 800"
  "BuffToShort (frame1 @ frame2) 32 = 0" "BuffToShort (frame1 @ frame2) 34 = 0"
  "BuffToShort (frame1 @ frame2) 36 = - 800"
  by (simp_all add: ToInt_def BuffToShort_def frame1_def frame2_def)

lemma fresh0_simps:
  "first_run (snd fresh0)" "buffer (snd fresh0) = frame1 @ frame2"
  "previous_timestamp (snd fresh0) = 0"
  by (simp_all add: fresh0_def acq_init_def acq0_def)

section \<open>The delta-angle field\<close>

lemma byte_bits: "unat (w::u32) < 256 \<Longrightarrow> bit w n \<Longrightarrow> n < 8"
proof -
  assume a: "unat w < 256" and b: "bit w n"
  have "w < 2 ^ 8" using a by (simp add: word_less_nat_alt)
  then have "take_bit 8 w = w" by (simp add: less_mask_eq take_bit_eq_mask)
  then have "bit (take_bit 8 w) n" using b by simp
  then show ?thesis by (simp add: bit_take_bit_iff)
qed

lemma join_or_plus:
  assumes "unat (w0::u32) < 256" "unat (w1::u32) < 256" "unat (w2::u32) < 256" "unat (w3::u32) < 256"
  shows "push_bit 24 w0 OR push_bit 16 w1 OR push_bit 8 w2 OR w3
       = push_bit 24 w0 + (push_bit 16 w1 + (push_bit 8 w2 + w3))"
proof -
  have 1: "push_bit 8 w2 AND w3 = 0"
    by (rule bit_word_eqI) (auto simp add: bit_simps dest: byte_bits [OF assms(4)])
  have 2: "push_bit 16 w1 AND (push_bit 8 w2 OR w3) = 0"
    by (rule bit_word_eqI) (auto simp add: bit_simps dest: byte_bits [OF assms(4)] byte_bits [OF assms(3)])
  have 3: "push_bit 24 w0 AND (push_bit 16 w1 OR push_bit 8 w2 OR w3) = 0"
    by (rule bit_word_eqI) (auto simp add: bit_simps dest: byte_bits [OF assms(4)] byte_bits [OF assms(3)]  byte_bits [OF assms(2)])
  show ?thesis
    by (simp only: disjunctive_add_eq_or [OF 1] disjunctive_add_eq_or [OF 2] disjunctive_add_eq_or [OF 3])
qed

lemma join_unat:
  assumes "unat (w0::u32) < 256" "unat (w1::u32) < 256" "unat (w2::u32) < 256" "unat (w3::u32) < 256"
  shows "uint (push_bit 24 w0 + (push_bit 16 w1 + (push_bit 8 w2 + w3)))
       = int (unat w0) * 2 ^ 24 + int (unat w1) * 2 ^ 16 + int (unat w2) * 2 ^ 8 + int (unat w3)"
proof -
  define n where "n = unat w0 * 2 ^ 24 + unat w1 * 2 ^ 16 + unat w2 * 2 ^ 8 + unat w3"
  have lt: "n < 2 ^ 32" using assms unfolding n_def by simp
  have sum: "push_bit 24 w0 + (push_bit 16 w1 + (push_bit 8 w2 + w3)) = (of_nat n :: u32)"
    unfolding n_def
    by (simp only: push_bit_eq_mult of_nat_add of_nat_mult of_nat_power of_nat_numeral
          of_nat_unat ucast_id add.assoc)
  have "unat (of_nat n :: u32) = n"
    using lt by (simp add: unat_of_nat)
  then have "uint (of_nat n :: u32) = int n"
    by (simp only: uint_nat)
  also have "int n = int (unat w0) * 2 ^ 24 + int (unat w1) * 2 ^ 16 + int (unat w2) * 2 ^ 8 + int (unat w3)"
    by (simp only: n_def of_nat_add of_nat_mult of_nat_power of_nat_numeral)
  finally show ?thesis
    by (simp only: sum)
qed

lemma sint32: "sint (w::u32) = (if uint w < 2 ^ 31 then uint w else uint w - 2 ^ 32)"
proof -
  have b: "0 \<le> uint w" "uint w < 2 ^ 32"
    using unsigned_less [of w, where ?'a = int] by simp_all
  have "sint w = take_bit 32 (uint w + 2 ^ 31) - 2 ^ 31"
    by (simp add: sint_uint signed_take_bit_eq_take_bit_shift)
  also have "\<dots> = (uint w + 2 ^ 31) mod 2 ^ 32 - 2 ^ 31"
    by (simp add: take_bit_eq_mod)
  also have "\<dots> = (if uint w < 2 ^ 31 then uint w else uint w - 2 ^ 32)"
  proof (cases "uint w < 2 ^ 31")
    case True
    then have "(uint w + 2 ^ 31) mod 2 ^ 32 = uint w + 2 ^ 31"
      using b by (intro mod_pos_pos_trivial) simp_all
    with True show ?thesis by simp
  next
    case False
    then have "(uint w + 2 ^ 31) mod 2 ^ 32 = uint w + 2 ^ 31 - 2 ^ 32"
      using b by (subst mod_pos_geq) (simp_all add: mod_pos_pos_trivial)
    with False show ?thesis by simp
  qed
  finally show ?thesis .
qed

lemma ToInt_be:
  assumes "unat (buf ! k) < 256" "unat (buf ! (k + 1)) < 256"
    "unat (buf ! (k + 2)) < 256" "unat (buf ! (k + 3)) < 256"
  shows "ToInt buf k = be_int32 (unat (buf ! k)) (unat (buf ! (k + 1))) (unat (buf ! (k + 2))) (unat (buf ! (k + 3)))"
  unfolding ToInt_def be_int32_def Let_def
  by (simp only: join_or_plus [OF assms] sint32 join_unat [OF assms])

lemma elapsed_wraps:
  "int (unat (ts - prev)) = (int (unat ts) - int (unat prev)) mod 2 ^ 32" for ts prev :: u32
  by (simp add: uint_word_ariths)

section \<open>One poll of the acquisition loop\<close>

lemma Acquire_for_fold:
  assumes "data_to_read (snd sl) = int (19 * m)" and "j \<le> m"
  shows "Acquire_for h (19 * j) sl = fold (Acquire_frame h) (map (\<lambda>k. 19 * k) [j..<m]) sl"
  using assms
proof (induction "m - j" arbitrary: j sl)
  case 0
  then have "j = m" by simp
  with 0 show ?case by (subst Acquire_for.simps) simp
next
  case (Suc d)
  then have lt: "j < m" by simp
  have step: "Acquire_for h (19 * j) sl = Acquire_for h (19 * Suc j) (Acquire_frame h (19 * j) sl)"
    using lt Suc.prems(1) by (subst Acquire_for.simps) (simp add: dataset_len_def add.commute)
  have "Acquire_for h (19 * Suc j) (Acquire_frame h (19 * j) sl)
        = fold (Acquire_frame h) (map (\<lambda>k. 19 * k) [Suc j..<m]) (Acquire_frame h (19 * j) sl)"
    using Suc.hyps(2) Suc.prems lt by (intro Suc.hyps(1)) simp_all
  with step lt show ?case by (simp add: upt_conv_Cons)
qed


lemma fold_frames_port:
  "port (fst (fold (Acquire_frame h) ks sl)) = port (fst sl)"
  by (induction ks arbitrary: sl) simp_all

lemma fold_frames_buffer:
  "buffer (snd (fold (Acquire_frame h) ks sl)) = buffer (snd sl)"
  by (induction ks arbitrary: sl) simp_all

lemma c_rem_nonneg: "0 \<le> a \<Longrightarrow> 0 < b \<Longrightarrow> c_rem a b = a mod b"
  by (cases "a = 0") (simp_all add: c_rem_def)

lemma Acquire_poll_complete_frames:
  fixes s :: ADIS16470_IMU and l :: acq
  defines "N \<equiv> length (fifo (port s))"
  assumes cap: "N - N mod 19 \<le> 570"
  shows "Acquire_poll h (s, l) =
      Inr (fold (Acquire_frame h) (map (\<lambda>k. 19 * k) [0..<N div 19])
        (s\<lparr>port := (port s)\<lparr>calls := calls (port s) @ [ReadAutoReceivedData 0, ReadAutoReceivedData (N - N mod 19)],
            fifo := drop (N - N mod 19) (fifo (port s))\<rparr>\<rparr>,
         l\<lparr>data_count := int N, data_remainder := int (N mod 19), data_to_read := int (N - N mod 19),
           buffer := take (N - N mod 19) (fifo (port s)) @ drop (N - N mod 19) (buffer l)\<rparr>))"
proof -
  have r: "c_rem (int N) dataset_len = int (N mod 19)"
    by (simp add: c_rem_nonneg dataset_len_def zmod_int)
  have d: "int N - int (N mod 19) = int (N - N mod 19)"
    by (simp add: of_nat_diff)
  have m: "N - N mod 19 = 19 * (N div 19)"
    by (simp add: minus_mod_eq_mult_div)
  have le: "\<not> int (N - N mod 19) > dataset_len * num_buffers"
    using cap by (simp add: dataset_len_def num_buffers_def)
  show ?thesis
    unfolding Acquire_poll_def Let_def
    apply (simp only: fst_conv snd_conv)
    apply (simp add: spi_log_def r d le N_def [symmetric] del: of_nat_diff)
    apply (subst Acquire_for_fold [where m = "N div 19" and j = 0, simplified])
     apply (simp add: m)
    apply simp
    done
qed

lemma Acquire_poll_leaves_remainder:
  assumes "length (fifo (port s)) - length (fifo (port s)) mod 19 \<le> 570"
  shows "\<exists>sl. Acquire_poll h (s, l) = Inr sl
           \<and> fifo (port (fst sl)) =
               drop (length (fifo (port s)) - length (fifo (port s)) mod 19) (fifo (port s))
           \<and> length (fifo (port (fst sl))) = length (fifo (port s)) mod 19
           \<and> take (length (fifo (port s)) - length (fifo (port s)) mod 19) (buffer (snd sl)) =
               take (length (fifo (port s)) - length (fifo (port s)) mod 19) (fifo (port s))"
  by (simp add: Acquire_poll_complete_frames [OF assms] fold_frames_port fold_frames_buffer)

lemma Acquire_poll_overrun_iff:
  "Acquire_poll h (s, l) = Inl BufferOverrun \<longleftrightarrow> 589 \<le> length (fifo (port s))"
proof (cases "length (fifo (port s)) - length (fifo (port s)) mod 19 \<le> 570")
  case True
  then have "length (fifo (port s)) \<le> 588" by presburger
  then show ?thesis by (simp add: Acquire_poll_complete_frames [OF True])
next
  case False
  then have big: "589 \<le> length (fifo (port s))" by presburger
  have r: "c_rem (int (length (fifo (port s)))) 19 = int (length (fifo (port s)) mod 19)"
    by (simp add: c_rem_nonneg zmod_int)
  have "int (length (fifo (port s))) - int (length (fifo (port s)) mod 19) > 570"
    using False by linarith
  then show ?thesis
    using big by (simp add: Acquire_poll_def Let_def spi_log_def dataset_len_def num_buffers_def r)
qed

section \<open>Range normalisation over the reals\<close>

lemma FormatRange0to2PI_down_less: "FormatRange0to2PI_down x < 2 * pi"
proof (induction x rule: FormatRange0to2PI_down.induct)
  case (1 x)
  then show ?case
    by (subst FormatRange0to2PI_down.simps) (simp add: M_PI_def)
qed

lemma FormatRange0to2PI_down_nonneg: "0 \<le> x \<Longrightarrow> 0 \<le> FormatRange0to2PI_down x"
proof (induction x rule: FormatRange0to2PI_down.induct)
  case (1 x)
  then show ?case
    by (subst FormatRange0to2PI_down.simps) (simp add: M_PI_def)
qed

lemma FormatRange0to2PI_down_id: "x < 2 * pi \<Longrightarrow> FormatRange0to2PI_down x = x"
  by (subst FormatRange0to2PI_down.simps) (simp add: M_PI_def)

lemma FormatRange0to2PI_up_nonneg: "0 \<le> FormatRange0to2PI_up x"
proof (induction x rule: FormatRange0to2PI_up.induct)
  case (1 x)
  then show ?case
    by (subst FormatRange0to2PI_up.simps) (simp add: M_PI_def)
qed

lemma FormatRange0to2PI_up_less: "x < 2 * pi \<Longrightarrow> FormatRange0to2PI_up x < 2 * pi"
proof (induction x rule: FormatRange0to2PI_up.induct)
  case (1 x)
  then show ?case
    by (subst FormatRange0to2PI_up.simps) (simp add: M_PI_def)
qed

lemma FormatRange0to2PI_up_id: "0 \<le> x \<Longrightarrow> FormatRange0to2PI_up x = x"
  by (subst FormatRange0to2PI_up.simps) (simp add: M_PI_def)

lemma FormatRange0to2PI_range_idempotent:
  "0 \<le> FormatRange0to2PI x \<and> FormatRange0to2PI x < 2 * pi
   \<and> FormatRange0to2PI (FormatRange0to2PI x) = FormatRange0to2PI x"
proof -
  have ge: "0 \<le> FormatRange0to2PI x"
    by (simp add: FormatRange0to2PI_def FormatRange0to2PI_up_nonneg)
  have lt: "FormatRange0to2PI x < 2 * pi"
    by (simp add: FormatRange0to2PI_def FormatRange0to2PI_up_less FormatRange0to2PI_down_less)
  have "FormatRange0to2PI (FormatRange0to2PI x) = FormatRange0to2PI x"
    using ge lt by (simp add: FormatRange0to2PI_def [of "FormatRange0to2PI x"] FormatRange0to2PI_down_id FormatRange0to2PI_up_id)
  with ge lt show ?thesis by simp
qed

section \<open>Binary64 rounding at the inputs used below\<close>

lemma round_half_even_near:
  assumes "\<bar>q - of_int n\<bar> < 1 / 2"
  shows "round_half_even q = n"
proof (cases "of_int n \<le> q")
  case True
  then have "\<lfloor>q\<rfloor> = n" using assms by (intro floor_unique) (auto simp add: abs_if split: if_splits)
  then show ?thesis using assms True by (simp add: round_half_even_def)
next
  case False
  then have "\<lfloor>q\<rfloor> = n - 1" using assms by (intro floor_unique) (auto simp add: abs_if split: if_splits)
  then show ?thesis using assms False by (simp add: round_half_even_def Let_def)
qed

lemma b64_round_eqI:
  assumes "2 powr real_of_int e \<le> \<bar>x\<bar>" and "\<bar>x\<bar> < 2 powr real_of_int (e + 1)"
    and "- 1022 \<le> e"
    and "\<bar>x / 2 powr real_of_int (e - 52) - of_int n\<bar> < 1 / 2"
  shows "b64_round x = of_int n * 2 powr real_of_int (e - 52)"
proof -
  have pos: "0 < \<bar>x\<bar>" using assms(1) by (smt (verit) powr_gt_zero)
  then have nz: "x \<noteq> 0" by simp
  have "\<lfloor>log 2 \<bar>x\<bar>\<rfloor> = e"
    using assms(1,2) pos by (subst floor_log_eq_powr_iff) simp_all
  then have u: "b64_ulp x = 2 powr real_of_int (e - 52)"
    using assms(3) by (simp add: b64_ulp_def max_def)
  show ?thesis
    using nz round_half_even_near [OF assms(4)] by (simp add: b64_round_def u)
qed

lemma b64_round_below_2pi: "b64_round (- (1 / 2 ^ 60) + 2 * M_PI_b64) = 2 * M_PI_b64"
proof -
  have "b64_round (- (1 / 2 ^ 60) + 2 * M_PI_b64) = of_int 7074237752028440 * 2 powr real_of_int (2 - 52)"
    by (rule b64_round_eqI) (simp_all add: M_PI_b64_def powr_neg_numeral)
  also have "\<dots> = 2 * M_PI_b64"
    by (simp add: M_PI_b64_def powr_neg_numeral)
  finally show ?thesis .
qed

lemma b64_round_absorbed: "b64_round (2 ^ 60 - 2 * M_PI_b64) = 2 ^ 60"
proof -
  have "b64_round (2 ^ 60 - 2 * M_PI_b64) = of_int (2 ^ 53) * 2 powr real_of_int (59 - 52)"
    by (rule b64_round_eqI) (simp_all add: M_PI_b64_def)
  also have "\<dots> = 2 ^ 60"
    by simp
  finally show ?thesis .
qed


lemma b64_round_zero: "b64_round 0 = 0"
  by (simp add: b64_round_def)

lemma b64_round_tenth: "b64_round (1 / 10) = 3602879701896397 / 2 ^ 55"
proof -
  have "b64_round (1 / 10) = of_int 7205759403792794 * 2 powr real_of_int (- 4 - 52)"
    by (rule b64_round_eqI) (simp_all add: powr_neg_numeral)
  then show ?thesis by (simp add: powr_neg_numeral)
qed

lemma b64_round_tie: "b64_round (2 ^ 53 + 1) = 2 ^ 53" "b64_round (2 ^ 53 + 3) = 2 ^ 53 + 4"
proof -
  have l1: "\<lfloor>log 2 \<bar>2 ^ 53 + 1 :: real\<bar>\<rfloor> = 53"
    by (subst floor_log_eq_powr_iff) simp_all
  have l3: "\<lfloor>log 2 \<bar>2 ^ 53 + 3 :: real\<bar>\<rfloor> = 53"
    by (subst floor_log_eq_powr_iff) simp_all
  have f1: "\<lfloor>9007199254740993 / 2 :: real\<rfloor> = 4503599627370496"
    by (rule floor_unique) simp_all
  have f3: "\<lfloor>9007199254740995 / 2 :: real\<rfloor> = 4503599627370497"
    by (rule floor_unique) simp_all
  show "b64_round (2 ^ 53 + 1) = 2 ^ 53"
    using l1 f1 by (simp add: b64_round_def b64_ulp_def round_half_even_def)
  show "b64_round (2 ^ 53 + 3) = 2 ^ 53 + 4"
    using l3 f3 by (simp add: b64_round_def b64_ulp_def round_half_even_def)
qed

lemma two_pi_b64_bounds: "0 < 2 * M_PI_b64" "2 * M_PI_b64 \<le> 2 ^ 60"
  by (simp_all add: M_PI_b64_def)

lemma b64_round_seven: "b64_round (7 - 2 * M_PI_b64) = 7 - 2 * M_PI_b64"
proof -
  have "b64_round (7 - 2 * M_PI_b64) = of_int 6456492766959424 * 2 powr real_of_int (- 1 - 52)"
    by (rule b64_round_eqI) (simp_all add: M_PI_b64_def powr_neg_numeral)
  also have "\<dots> = 7 - 2 * M_PI_b64"
    by (simp add: M_PI_b64_def powr_neg_numeral)
  finally show ?thesis .
qed

lemma FormatRange0to2PI_b64_seven: "FormatRange0to2PI_b64 7 = Some (7 - 2 * M_PI_b64)"
proof -
  have "FormatRange0to2PI_down_b64 7 = FormatRange0to2PI_down_b64 (b64_round (7 - 2 * M_PI_b64))"
    by (subst FormatRange0to2PI_down_b64.simps) (simp add: M_PI_b64_def)
  also have "\<dots> = FormatRange0to2PI_down_b64 (7 - 2 * M_PI_b64)"
    by (simp only: b64_round_seven)
  also have "\<dots> = Some (7 - 2 * M_PI_b64)"
    by (subst FormatRange0to2PI_down_b64.simps) (simp add: M_PI_b64_def)
  finally have d: "FormatRange0to2PI_down_b64 7 = Some (7 - 2 * M_PI_b64)" .
  have u: "FormatRange0to2PI_up_b64 (7 - 2 * M_PI_b64) = Some (7 - 2 * M_PI_b64)"
    by (subst FormatRange0to2PI_up_b64.simps) (simp add: M_PI_b64_def)
  show ?thesis
    unfolding FormatRange0to2PI_b64_def by (simp only: d u option.case)
qed

lemma FormatRange0to2PI_down_b64_stuck:
  assumes "FormatRange0to2PI_down_b64 x = Some y"
  shows "x \<noteq> 2 ^ 60"
proof (rule FormatRange0to2PI_down_b64.raw_induct [where P = "\<lambda>x y. x \<noteq> 2 ^ 60", OF _ assms])
  fix f :: "real \<Rightarrow> real option" and x y :: real
  assume IH: "\<And>x y. f x = Some y \<Longrightarrow> x \<noteq> 2 ^ 60"
    and step: "(if 2 * M_PI_b64 \<le> x then f (b64_round (x - 2 * M_PI_b64)) else Some x) = Some y"
  show "x \<noteq> 2 ^ 60"
  proof
    assume x: "x = 2 ^ 60"
    have "(if 2 * M_PI_b64 \<le> (2 ^ 60 :: real)
           then f (b64_round (2 ^ 60 - 2 * M_PI_b64)) else Some (2 ^ 60)) = Some y"
      using step unfolding x .
    then have "f (b64_round (2 ^ 60 - 2 * M_PI_b64)) = Some y"
      by (simp only: two_pi_b64_bounds if_True)
    then have "f (2 ^ 60) = Some y"
      by (simp only: b64_round_absorbed)
    then show False using IH by blast
  qed
qed

lemma FormatRange0to2PI_b64_diverges: "FormatRange0to2PI_b64 (2 ^ 60) = None"
proof (cases "FormatRange0to2PI_down_b64 (2 ^ 60)")
  case None
  then show ?thesis by (simp only: FormatRange0to2PI_b64_def option.case)
next
  case (Some y)
  then show ?thesis using FormatRange0to2PI_down_b64_stuck by blast
qed

section \<open>Fast convergence\<close>

text \<open>Over the reals one shift brings angles less than \<open>3\<pi>\<close> apart within \<open>\<pi>\<close>.\<close>

lemma FormatFastConverge_real_shift:
  "(FormatFastConverge c a = c - 2 * pi \<or> FormatFastConverge c a = c
      \<or> FormatFastConverge c a = c + 2 * pi)
   \<and> (\<bar>c - a\<bar> < 3 * pi \<and> \<bar>c - a\<bar> \<noteq> pi \<longrightarrow> \<bar>FormatFastConverge c a - a\<bar> < pi)"
  using pi_gt_zero by (auto simp add: FormatFastConverge_def M_PI_def)

text \<open>
  In binary64 every sum of magnitude below 32 is rounded by at most \<open>2\<^sup>-\<^sup>4\<^sup>9\<close>, half the
  spacing of the doubles between 16 and 32.
\<close>

lemma round_half_even_error: "\<bar>real_of_int (round_half_even q) - q\<bar> \<le> 1 / 2"
proof -
  have "real_of_int \<lfloor>q\<rfloor> \<le> q" "q < real_of_int \<lfloor>q\<rfloor> + 1" by linarith+
  then show ?thesis
    by (auto simp add: round_half_even_def Let_def)
qed

lemma b64_ulp_pos: "0 < b64_ulp x"
  by (simp add: b64_ulp_def)

lemma b64_ulp_below_32:
  assumes "x \<noteq> 0" and "\<bar>x\<bar> < 32"
  shows "b64_ulp x \<le> 1 / 2 ^ 48"
proof -
  have "log 2 \<bar>x\<bar> < log 2 32"
    using assms by (subst log_less_cancel_iff) simp_all
  also have "log 2 32 = 5"
    using log_powr_cancel [of 2 5] by simp
  finally have "\<lfloor>log 2 \<bar>x\<bar>\<rfloor> \<le> 4"
    by (simp add: floor_le_iff)
  then have "real_of_int (max \<lfloor>log 2 \<bar>x\<bar>\<rfloor> (- 1022) - 52) \<le> - 48"
    by simp
  then have "b64_ulp x \<le> 2 powr (- 48)"
    unfolding b64_ulp_def by (intro powr_mono) simp_all
  then show ?thesis by (simp add: powr_neg_numeral)
qed

lemma b64_round_error:
  assumes "\<bar>x\<bar> < 32"
  shows "\<bar>b64_round x - x\<bar> \<le> 1 / 2 ^ 49"
proof (cases "x = 0")
  case True
  then show ?thesis by (simp add: b64_round_def)
next
  case False
  define u where "u = b64_ulp x"
  have u: "0 < u" "u \<le> 1 / 2 ^ 48"
    using b64_ulp_pos [of x] b64_ulp_below_32 [OF False assms] by (simp_all add: u_def)
  have "b64_round x - x = (real_of_int (round_half_even (x / u)) - x / u) * u"
    using False u(1) by (simp add: b64_round_def u_def [symmetric] algebra_simps)
  then have "\<bar>b64_round x - x\<bar> = \<bar>real_of_int (round_half_even (x / u)) - x / u\<bar> * u"
    using u(1) by (simp add: abs_mult)
  also have "\<dots> \<le> 1 / 2 * u"
    using round_half_even_error [of "x / u"] u(1) by (intro mult_right_mono) simp_all
  also have "\<dots> \<le> 1 / 2 ^ 49"
    using u(2) by simp
  finally show ?thesis .
qed

text \<open>
  Near \<open>2\<^sup>5\<^sup>4\<close> the doubles are 4 apart, so adding \<^verbatim>\<open>M_PI\<close> moves to the next double and
  neither comparison of \<^verbatim>\<open>FormatFastConverge\<close> holds for two doubles 4 apart.
\<close>

lemma b64_round_2p54: "b64_round (2 ^ 54 + M_PI_b64) = 2 ^ 54 + 4"
  "b64_round (2 ^ 54 + 4 + M_PI_b64) = 2 ^ 54 + 8"
proof -
  have "b64_round (2 ^ 54 + M_PI_b64) = of_int (2 ^ 52 + 1) * 2 powr real_of_int (54 - 52)"
    by (rule b64_round_eqI) (simp_all add: M_PI_b64_def)
  then show "b64_round (2 ^ 54 + M_PI_b64) = 2 ^ 54 + 4" by simp
  have "b64_round (2 ^ 54 + 4 + M_PI_b64) = of_int (2 ^ 52 + 2) * 2 powr real_of_int (54 - 52)"
    by (rule b64_round_eqI) (simp_all add: M_PI_b64_def)
  then show "b64_round (2 ^ 54 + 4 + M_PI_b64) = 2 ^ 54 + 8" by simp
qed

lemma FormatFastConverge_b64_large: "FormatFastConverge_b64 (2 ^ 54 + 4) (2 ^ 54) = 2 ^ 54 + 4"
  unfolding FormatFastConverge_b64_def by (simp only: b64_round_2p54) simp

lemma FormatFastConverge_b64_far: "22 \<le> FormatFastConverge_b64 32 0"
proof -
  have m: "M_PI_b64 = 884279719003555 / 281474976710656"
    by (simp add: M_PI_b64_def)
  have r: "\<bar>0 + M_PI_b64\<bar> < 32" "\<bar>32 - 2 * M_PI_b64\<bar> < 32"
    unfolding m by simp_all
  note e = b64_round_error [OF r(1)] b64_round_error [OF r(2)]
  show ?thesis
    unfolding FormatFastConverge_b64_def using e unfolding m
    by (auto simp add: abs_if split: if_splits)
qed

section \<open>Switching between the bus modes\<close>

lemma standard_spi_setup_members:
  "m_spi (snd (standard_spi_setup h s))"
  "m_auto_interrupt (snd (standard_spi_setup h s)) = m_auto_interrupt s"
  "m_yaw_axis (snd (standard_spi_setup h s)) = m_yaw_axis s"
  "m_calibration_time (snd (standard_spi_setup h s)) = m_calibration_time s"
  "m_freed (snd (standard_spi_setup h s)) = m_freed s"
  by (simp_all add: standard_spi_setup_def Let_def split_def)

lemma SwitchToStandardSPI_leaves_dangling:
  assumes "m_spi s" and "m_auto_interrupt s = Live"
  shows "\<exists>r. SwitchToStandardSPI h s = Inr r \<and> m_spi (snd r)
           \<and> m_auto_interrupt (snd r) = Dangling
           \<and> m_yaw_axis (snd r) = m_yaw_axis s
           \<and> m_calibration_time (snd r) = m_calibration_time s"
proof -
  let ?s1 = "if \<not> m_freed s then s\<lparr>m_freed := True, m_acquire_task := False\<rparr> else s"
  let ?r = "standard_spi_setup h (?s1\<lparr>m_auto_interrupt := Dangling, m_spi := False\<rparr>)"
  have "SwitchToStandardSPI h s = Inr ?r"
    using assms by (simp add: SwitchToStandardSPI_def Let_def delete_ptr_def)
  moreover have "m_spi (snd ?r)" "m_auto_interrupt (snd ?r) = Dangling"
    "m_yaw_axis (snd ?r) = m_yaw_axis s" "m_calibration_time (snd ?r) = m_calibration_time s"
    by (simp_all add: standard_spi_setup_members)
  ultimately show ?thesis by blast
qed

lemma SwitchToStandardSPI_double_delete:
  "m_spi s \<Longrightarrow> m_auto_interrupt s = Dangling \<Longrightarrow> SwitchToStandardSPI h s = Inl DoubleDelete"
  by (simp add: SwitchToStandardSPI_def Let_def delete_ptr_def)

lemma SetYawAxis_NoChange: "m_yaw_axis s = yaw_axis \<Longrightarrow> SetYawAxis h yaw_axis s = Inr (1, s)"
  by (simp add: SetYawAxis_def)

lemma ConfigCalTime_NoChange:
  "m_calibration_time s = word_of_int new_cal_time \<Longrightarrow> ConfigCalTime h new_cal_time s = Inr (1, s)"
  by (simp add: ConfigCalTime_def)

lemma SetYawAxis_Failure:
  "m_yaw_axis s \<noteq> yaw_axis \<Longrightarrow> SwitchToStandardSPI h s = Inr (False, s1) \<Longrightarrow>
     SetYawAxis h yaw_axis s = Inr (2, s1)"
  by (simp add: SetYawAxis_def)

lemma ConfigCalTime_Failure:
  "m_calibration_time s \<noteq> word_of_int new_cal_time \<Longrightarrow>
     SwitchToStandardSPI h s = Inr (False, s1) \<Longrightarrow> ConfigCalTime h new_cal_time s = Inr (2, s1)"
  by (simp add: ConfigCalTime_def)

lemma standard_spi_setup_spi0:
  "port s = spi0 \<Longrightarrow> \<not> fst (standard_spi_setup hdr0 s)"
  by (simp add: standard_spi_setup_def Let_def hdr0_def spi0_def ReadRegister_def
      spi_Write_def spi_Read_def spi_log_def ToUShort_def split_def)

lemma SwitchToStandardSPI_imu0:
  "\<exists>s1. SwitchToStandardSPI hdr0 imu0 = Inr (False, s1) \<and> m_spi s1
     \<and> m_auto_interrupt s1 = Dangling \<and> m_yaw_axis s1 = kZ \<and> m_calibration_time s1 = 7"
proof -
  have "m_spi imu0" "m_auto_interrupt imu0 = Live" by (simp_all add: imu0_def)
  from SwitchToStandardSPI_leaves_dangling [OF this, of hdr0]
  obtain r where r: "SwitchToStandardSPI hdr0 imu0 = Inr r" "m_spi (snd r)"
    "m_auto_interrupt (snd r) = Dangling" "m_yaw_axis (snd r) = m_yaw_axis imu0"
    "m_calibration_time (snd r) = m_calibration_time imu0"
    by blast
  have "\<not> fst r"
    using r(1)
    by (auto simp add: SwitchToStandardSPI_def Let_def delete_ptr_def imu0_def
        standard_spi_setup_spi0)
  then have "r = (False, snd r)" by (cases r) simp
  then show ?thesis using r by (auto simp add: imu0_def)
qed

section \<open>Evaluation on the sample inputs\<close>

lemma BuffToShort_frame2: "BuffToShort frame2 17 = - 800" "BuffToShort frame2 13 = 0" "BuffToShort frame2 15 = 0"
  by (simp_all add: BuffToShort_def frame2_def)

lemma FormatAccelRange_cases:
  "(z < 0 \<longrightarrow> FormatAccelRange a z = pi - a)
   \<and> (0 < z \<and> a < 0 \<longrightarrow> FormatAccelRange a z = a + 2 * pi)
   \<and> (z = 0 \<or> (0 < z \<and> 0 \<le> a) \<longrightarrow> FormatAccelRange a z = a)"
  by (auto simp add: FormatAccelRange_def M_PI_def)

lemma first_frame2_accel:
  "accel_x_si (snd first_frame2) = 0"
  "accel_y_si (snd first_frame2) = 0"
  "accel_z_si (snd first_frame2) = - 9.81"
  by (simp_all add: first_frame2_def acq_init_def Acquire_frame_def Let_def BuffToShort_frame2 hdr0_def)

lemma raw_tilt_frame2: "0 < x \<Longrightarrow> atan2f 0 (sqrtf x) = 0"
  by (simp add: atan2f_def sqrtf_def)

lemma first_frame2_angle:
  "accelAngleX (snd first_frame2) = 0" "m_accelAngleX (fst first_frame2) = 0"
  by (simp_all add: first_frame2_def acq_init_def Acquire_frame_def Let_def BuffToShort_frame2
        hdr0_def raw_tilt_frame2)

lemma Write_then_Read_odd_address:
  "fst (ReadRegister 0x01 (WriteRegister 0x01 0x1234 spi0)) = 0x0012"
  by (simp add: ReadRegister_def WriteRegister_def spi_Write_def spi_Read_def spi_log_def
        Let_def spi0_def ToUShort_def)

lemma Acquire_poll_two_frames_and_a_bit:
  "\<exists>sl. Acquire_poll hdr0 (imu0\<lparr>port := spi0\<lparr>fifo := frame1 @ frame2 @ [7, 7, 7]\<rparr>\<rparr>, acq_init acq0)
          = Inr sl
        \<and> fifo (port (fst sl)) = [7, 7, 7]
        \<and> previous_timestamp (snd sl) = 1500
        \<and> m_integ_angle (fst sl) = 135 / 2048"
proof -
  let ?s = "imu0\<lparr>port := spi0\<lparr>fifo := frame1 @ frame2 @ [7, 7, 7]\<rparr>\<rparr>"
  have len: "length (fifo (port ?s)) = 41" by (simp add: frame1_def frame2_def)
  have cap: "length (fifo (port ?s)) - length (fifo (port ?s)) mod 19 \<le> 570"
    unfolding len by simp
  have up: "[0..<41 div 19] = [0, 1]" by (simp add: upt_rec)
  show ?thesis
    unfolding Acquire_poll_complete_frames [OF cap] len up
    apply (simp add: m_integ_angle_Acquire_frame delta_angle_Acquire_frame)
    apply (simp add: frame1_def frame2_def acq_init_def ToInt_def hdr0_def)
    done
qed

section \<open>The claims\<close>

text \<open>
  C1. One iteration of the acquisition loop is meant to drain and decode every complete
  frame of the \<open>N\<close> buffered words and to leave the remaining \<open>N mod 19\<close> words. The
  lemma \<open>Acquire_poll_complete_frames\<close> above shows that it does so whenever the
  complete-frame prefix fits the local buffer of 570 words. With 589 buffered words
  (31 complete frames) the second \<^verbatim>\<open>ReadAutoReceivedData\<close> writes 589 words into
  the 570-word array: the iteration overruns the buffer instead of decoding 31 frames.
\<close>

theorem Acquire_poll_overrun:
  "Acquire_poll h (s\<lparr>port := (port s)\<lparr>fifo := replicate 589 w\<rparr>\<rparr>, l) = Inl BufferOverrun"
proof -
  have r: "c_rem 589 dataset_len = 0" by (simp add: c_rem_def dataset_len_def)
  show ?thesis
    unfolding Acquire_poll_def Let_def
    by (simp add: spi_log_def r) (simp add: dataset_len_def num_buffers_def)
qed



text \<open>
  C3. For a decoded frame whose delta-angle words hold bytes, the scaled delta-angle is
  \<open>deltaAngleRaw * delta_angle_sf / (500 / (ts - prev))\<close>, where \<open>deltaAngleRaw\<close> is the
  big-endian signed 32-bit join of the words at offsets 3 to 6 and \<open>ts - prev\<close> is the
  difference of the two 32-bit timestamps (modulo \<open>2 ^ 32\<close>, the plain difference when
  \<open>prev \<le> ts\<close>); and \<open>m_dt\<close> is \<open>(ts - prev) / 1000000\<close>.
\<close>

theorem delta_angle_and_dt_formula:
  assumes "\<forall>k\<in>{3, 4, 5, 6}. unat (buffer (snd sl) ! (i + k)) < 256"
  shows "delta_angle (snd (Acquire_frame h i sl)) =
           real_of_int (be_int32 (unat (buffer (snd sl) ! (i + 3))) (unat (buffer (snd sl) ! (i + 4)))
                                 (unat (buffer (snd sl) ! (i + 5))) (unat (buffer (snd sl) ! (i + 6))))
             * delta_angle_sf h
             / (500 / real (unat (buffer (snd sl) ! i - previous_timestamp (snd sl))))
       \<and> m_dt (fst (Acquire_frame h i sl)) =
           real (unat (buffer (snd sl) ! i - previous_timestamp (snd sl))) / 1000000
       \<and> int (unat (buffer (snd sl) ! i - previous_timestamp (snd sl))) =
           (int (unat (buffer (snd sl) ! i)) - int (unat (previous_timestamp (snd sl)))) mod 2 ^ 32
       \<and> (previous_timestamp (snd sl) \<le> buffer (snd sl) ! i \<longrightarrow>
            unat (buffer (snd sl) ! i - previous_timestamp (snd sl)) =
              unat (buffer (snd sl) ! i) - unat (previous_timestamp (snd sl)))"
proof -
  have e: "i + 3 + 1 = i + 4" "i + 3 + 2 = i + 5" "i + 3 + 3 = i + 6"
    by simp_all
  have b: "unat (buffer (snd sl) ! (i + 3)) < 256" "unat (buffer (snd sl) ! (i + 3 + 1)) < 256"
    "unat (buffer (snd sl) ! (i + 3 + 2)) < 256" "unat (buffer (snd sl) ! (i + 3 + 3)) < 256"
    unfolding e using assms by blast+
  have "ToInt (buffer (snd sl)) (i + 3) =
      be_int32 (unat (buffer (snd sl) ! (i + 3))) (unat (buffer (snd sl) ! (i + 4)))
               (unat (buffer (snd sl) ! (i + 5))) (unat (buffer (snd sl) ! (i + 6)))"
    using ToInt_be [OF b] unfolding e .
  then have 1: "delta_angle (snd (Acquire_frame h i sl)) =
           real_of_int (be_int32 (unat (buffer (snd sl) ! (i + 3))) (unat (buffer (snd sl) ! (i + 4)))
                                 (unat (buffer (snd sl) ! (i + 5))) (unat (buffer (snd sl) ! (i + 6))))
             * delta_angle_sf h
             / (500 / real (unat (buffer (snd sl) ! i - previous_timestamp (snd sl))))"
    by (simp only: delta_angle_Acquire_frame)
  show ?thesis
    using 1 m_dt_Acquire_frame [of h i sl]
      elapsed_wraps [of "buffer (snd sl) ! i" "previous_timestamp (snd sl)"]
      unat_sub [of "previous_timestamp (snd sl)" "buffer (snd sl) ! i"]
    by blast
qed

theorem delta_angle_and_dt_formula_witness:
  "unat (buffer (snd fresh0) ! 3) < 256 \<and> unat (buffer (snd fresh0) ! 4) < 256
   \<and> unat (buffer (snd fresh0) ! 5) < 256 \<and> unat (buffer (snd fresh0) ! 6) < 256
   \<and> delta_angle (snd (Acquire_frame hdr0 0 fresh0)) = 135 / 16384
   \<and> m_dt (fst (Acquire_frame hdr0 0 fresh0)) = 1 / 1000"
  using delta_angle_and_dt_formula [where h = hdr0 and i = 0 and sl = fresh0]
  by (simp add: fresh0_simps frame1_def frame2_def hdr0_def be_int32_def)

text \<open>
  C4. For every register address \<open>reg\<close> (16-bit registers start at even addresses) and
  every 16-bit value, \<^verbatim>\<open>WriteRegister(reg, val)\<close> issues exactly two 2-byte bus writes:
  the low byte of \<open>val\<close> with address byte \<^verbatim>\<open>0x80 | reg\<close>, then the high byte with
  address byte \<^verbatim>\<open>0x80 | (reg + 1)\<close>. Both address bytes have the write bit \<^verbatim>\<open>0x80\<close>
  set, and for a 7-bit \<open>reg\<close> their address fields are \<open>reg\<close> and \<open>reg + 1\<close>.
\<close>

theorem WriteRegister_two_writes:
  assumes "even reg"
  shows "calls (WriteRegister reg val p) =
     calls p @ [SpiWrite [0x80 OR reg, word_of_nat (unat val mod 256)],
                SpiWrite [0x80 OR (reg + 1), word_of_nat (unat val div 256)]]
   \<and> (0x80 OR reg) AND 0x80 = 0x80 \<and> (0x80 OR (reg + 1)) AND 0x80 = 0x80
   \<and> (reg \<le> 0x7F \<longrightarrow> (0x80 OR reg) AND 0x7F = reg \<and> (0x80 OR (reg + 1)) AND 0x7F = reg + 1)"
proof -
  have lo: "(ucast (val AND 0xFF) :: u8) = word_of_nat (unat val mod 256)"
    using of_nat_unat [of "ucast (val AND 0xFF) :: u8", where ?'a = "8 word"]
    by (simp add: low_byte)
  have hi: "(ucast (drop_bit 8 val) :: u8) = word_of_nat (unat val div 256)"
    using of_nat_unat [of "ucast (drop_bit 8 val) :: u8", where ?'a = "8 word"]
    by (simp add: high_byte)
  have a: "reg \<le> 0x7F \<Longrightarrow> (0x80 OR (reg + 1)) AND 0x7F = reg + 1"
    using addr_0x81 [of reg] assms by (simp only: or_0x81_even [OF assms])
  show ?thesis
    using a addr_0x80 [of reg]
    by (simp only: calls_WriteRegister lo hi or_0x81_even [OF assms] write_bit_set) blast
qed

theorem WriteRegister_two_writes_witness:
  "even (0x66::u8) \<and> (0x66::u8) \<le> 0x7F
   \<and> calls (WriteRegister 0x66 0x0712 spi0) = [SpiWrite [0xE6, 0x12], SpiWrite [0xE7, 0x07]]
   \<and> (0xE6::u8) AND 0x7F = 0x66 \<and> (0xE7::u8) AND 0x7F = 0x67"
  using WriteRegister_two_writes [of "0x66" "0x0712" spi0]
  by (simp add: spi0_def)

text \<open>
  C5. \<^verbatim>\<open>ReadRegister(reg)\<close> sends the two bytes \<^verbatim>\<open>reg & 0x7F\<close>, \<^verbatim>\<open>0x00\<close>, reads two
  bytes back and returns them joined with the first byte as the high byte. Over the
  simulated transport, for every register address (an even address, where a 16-bit
  register starts) and every 16-bit value, \<^verbatim>\<open>WriteRegister\<close> followed by
  \<^verbatim>\<open>ReadRegister\<close> of the same address returns the value written.
\<close>

theorem Write_then_Read_roundtrip:
  "calls (snd (ReadRegister reg p)) = calls p @ [SpiWrite [reg AND 0x7F, 0x00], SpiRead False 2]
   \<and> (case fst (spi_Read (spi_Write (reg AND 0x7F) 0x00 p)) of
        (b0, b1) \<Rightarrow> unat (fst (ReadRegister reg p)) = 256 * unat b0 + unat b1)
   \<and> (even reg \<longrightarrow> fst (ReadRegister reg (WriteRegister reg v p)) = v)"
proof (intro conjI impI)
  show "calls (snd (ReadRegister reg p)) = calls p @ [SpiWrite [reg AND 0x7F, 0x00], SpiRead False 2]"
    by (rule calls_ReadRegister)
  show "case fst (spi_Read (spi_Write (reg AND 0x7F) 0x00 p)) of
        (b0, b1) \<Rightarrow> unat (fst (ReadRegister reg p)) = 256 * unat b0 + unat b1"
    by (simp add: ReadRegister_def Let_def split_def ToUShort_unat)
next
  assume e: "even reg"
  have ne: "(reg AND 0x7F) + 1 \<noteq> reg AND 0x7F" by simp
  show "fst (ReadRegister reg (WriteRegister reg v p)) = v"
    using ne
    by (simp add: ReadRegister_def WriteRegister_def spi_Write_def spi_Read_def spi_log_def
        Let_def write_bit_0x80 write_bit_0x81 read_request_no_write_bit addr_masked_0x80
        addr_masked_0x81 [OF e] ToUShort_def join_bytes)
qed

theorem Write_then_Read_roundtrip_witness:
  "even (0x66::u8) \<and> fst (ReadRegister 0x66 (WriteRegister 0x66 0xBEEF spi0)) = 0xBEEF
   \<and> even (0xE6::u8) \<and> fst (ReadRegister 0xE6 (WriteRegister 0xE6 0xBEEF spi0)) = 0xBEEF"
  using Write_then_Read_roundtrip [of "0x66" spi0 "0xBEEF"]
    Write_then_Read_roundtrip [of "0xE6" spi0 "0xBEEF"]
  by simp

text \<open>
  C6, as amended. In binary64 arithmetic \<^verbatim>\<open>FormatFastConverge\<close> returns the
  complementary angle itself, or the rounded \<^verbatim>\<open>compAngle - 2.0 * M_PI\<close>, or the rounded
  \<^verbatim>\<open>compAngle + 2.0 * M_PI\<close>; for \<open>\<bar>compAngle\<bar> \<le> 16\<close> each rounding is off by at most
  \<open>2\<^sup>-\<^sup>4\<^sup>9\<close>. When both angles have magnitude at most 16 and differ by at most
  \<^verbatim>\<open>3 * M_PI\<close>, the result is within \<^verbatim>\<open>M_PI\<close> \<open>+ 2\<^sup>-\<^sup>4\<^sup>8\<close> of the accelerometer angle.
\<close>

theorem FormatFastConverge_b64_one_shift:
  "(FormatFastConverge_b64 c a = c
      \<or> FormatFastConverge_b64 c a = b64_round (c - 2 * M_PI_b64)
      \<or> FormatFastConverge_b64 c a = b64_round (c + 2 * M_PI_b64))
   \<and> (\<bar>c\<bar> \<le> 16 \<longrightarrow>
        \<bar>b64_round (c - 2 * M_PI_b64) - (c - 2 * M_PI_b64)\<bar> \<le> 1 / 2 ^ 49
        \<and> \<bar>b64_round (c + 2 * M_PI_b64) - (c + 2 * M_PI_b64)\<bar> \<le> 1 / 2 ^ 49)
   \<and> (\<bar>c\<bar> \<le> 16 \<and> \<bar>a\<bar> \<le> 16 \<and> \<bar>c - a\<bar> \<le> 3 * M_PI_b64 \<longrightarrow>
        \<bar>FormatFastConverge_b64 c a - a\<bar> \<le> M_PI_b64 + 1 / 2 ^ 48)"
proof (intro conjI impI)
  show "FormatFastConverge_b64 c a = c
      \<or> FormatFastConverge_b64 c a = b64_round (c - 2 * M_PI_b64)
      \<or> FormatFastConverge_b64 c a = b64_round (c + 2 * M_PI_b64)"
    by (simp add: FormatFastConverge_b64_def)
next
  assume c: "\<bar>c\<bar> \<le> 16"
  have "\<bar>c - 2 * M_PI_b64\<bar> < 32" "\<bar>c + 2 * M_PI_b64\<bar> < 32"
    using c by (simp_all add: M_PI_b64_def abs_if split: if_splits)
  then show "\<bar>b64_round (c - 2 * M_PI_b64) - (c - 2 * M_PI_b64)\<bar> \<le> 1 / 2 ^ 49"
    and "\<bar>b64_round (c + 2 * M_PI_b64) - (c + 2 * M_PI_b64)\<bar> \<le> 1 / 2 ^ 49"
    by (simp_all only: b64_round_error)
next
  assume h: "\<bar>c\<bar> \<le> 16 \<and> \<bar>a\<bar> \<le> 16 \<and> \<bar>c - a\<bar> \<le> 3 * M_PI_b64"
  have m: "M_PI_b64 = 884279719003555 / 281474976710656"
    by (simp add: M_PI_b64_def)
  have r: "\<bar>a + M_PI_b64\<bar> < 32" "\<bar>c + M_PI_b64\<bar> < 32"
    "\<bar>c - 2 * M_PI_b64\<bar> < 32" "\<bar>c + 2 * M_PI_b64\<bar> < 32"
    using h unfolding m by linarith+
  note e = b64_round_error [OF r(1)] b64_round_error [OF r(2)]
    b64_round_error [OF r(3)] b64_round_error [OF r(4)]
  show "\<bar>FormatFastConverge_b64 c a - a\<bar> \<le> M_PI_b64 + 1 / 2 ^ 48"
    unfolding FormatFastConverge_b64_def using h e unfolding m
    by (auto simp add: abs_if split: if_splits)
qed

theorem FormatFastConverge_b64_one_shift_witness:
  "\<bar>4 :: real\<bar> \<le> 16 \<and> \<bar>0 :: real\<bar> \<le> 16 \<and> \<bar>4 - 0\<bar> \<le> 3 * M_PI_b64
   \<and> \<bar>FormatFastConverge_b64 4 0 - 0\<bar> \<le> M_PI_b64 + 1 / 2 ^ 48
   \<and> \<bar>b64_round (4 - 2 * M_PI_b64) - (4 - 2 * M_PI_b64)\<bar> \<le> 1 / 2 ^ 49"
  using FormatFastConverge_b64_one_shift [of 4 0]
  by (simp add: M_PI_b64_def)

text \<open>
  C6 as stated fails in binary64: from 32 against 0 the single shift leaves more than
  22, and from \<open>2\<^sup>5\<^sup>4 + 4\<close> against \<open>2\<^sup>5\<^sup>4\<close> nothing is shifted and the difference stays
  \<open>4 > \<pi>\<close>.
\<close>

theorem FormatFastConverge_b64_counterexample:
  "\<not> \<bar>FormatFastConverge_b64 32 0 - 0\<bar> < pi
   \<and> \<not> \<bar>FormatFastConverge_b64 (2 ^ 54 + 4) (2 ^ 54) - 2 ^ 54\<bar> < pi"
  using FormatFastConverge_b64_far pi_less_4
  by (simp only: FormatFastConverge_b64_large) simp

text \<open>
  C7. \<^verbatim>\<open>FormatRange0to2PI\<close> is meant to end on every finite input, to return a value in
  \<open>[0, 2\<pi>)\<close> and to be idempotent; over the reals it does
  (\<open>FormatRange0to2PI_range_idempotent\<close> above). In binary64 arithmetic it is not
  idempotent: for the input \<open>- 1 / 2 ^ 60\<close> the second loop adds \<^verbatim>\<open>2.0 * M_PI\<close>, the sum
  rounds to \<^verbatim>\<open>2.0 * M_PI\<close> itself, and that is returned; a second call subtracts
  \<^verbatim>\<open>2.0 * M_PI\<close> and returns 0. Nor does it end on every input: for \<open>2 ^ 60\<close> the
  subtraction of the first loop rounds back to \<open>2 ^ 60\<close>
  (\<open>FormatRange0to2PI_b64_diverges\<close> above).
\<close>

theorem FormatRange0to2PI_b64_not_idempotent:
  "FormatRange0to2PI_b64 (- (1 / 2 ^ 60)) = Some (2 * M_PI_b64)
   \<and> FormatRange0to2PI_b64 (2 * M_PI_b64) = Some 0
   \<and> 2 * M_PI_b64 \<noteq> 0"
proof -
  have d1: "FormatRange0to2PI_down_b64 (- (1 / 2 ^ 60)) = Some (- (1 / 2 ^ 60))"
    by (subst FormatRange0to2PI_down_b64.simps) (simp add: M_PI_b64_def)
  have u2: "FormatRange0to2PI_up_b64 (2 * M_PI_b64) = Some (2 * M_PI_b64)"
    by (subst FormatRange0to2PI_up_b64.simps) (simp add: M_PI_b64_def)
  have "FormatRange0to2PI_up_b64 (- (1 / 2 ^ 60)) =
      FormatRange0to2PI_up_b64 (b64_round (- (1 / 2 ^ 60) + 2 * M_PI_b64))"
    by (subst FormatRange0to2PI_up_b64.simps) simp
  then have u1: "FormatRange0to2PI_up_b64 (- (1 / 2 ^ 60)) = Some (2 * M_PI_b64)"
    by (simp only: b64_round_below_2pi u2)
  have d0: "FormatRange0to2PI_down_b64 0 = Some 0"
    by (subst FormatRange0to2PI_down_b64.simps) (simp add: M_PI_b64_def)
  have "FormatRange0to2PI_down_b64 (2 * M_PI_b64) =
      FormatRange0to2PI_down_b64 (b64_round (2 * M_PI_b64 - 2 * M_PI_b64))"
    by (subst FormatRange0to2PI_down_b64.simps) simp
  then have d2: "FormatRange0to2PI_down_b64 (2 * M_PI_b64) = Some 0"
    by (simp only: diff_self b64_round_zero d0)
  have u0: "FormatRange0to2PI_up_b64 0 = Some 0"
    by (subst FormatRange0to2PI_up_b64.simps) simp
  have nz: "2 * M_PI_b64 \<noteq> 0"
    by (simp add: M_PI_b64_def)
  show ?thesis
    unfolding FormatRange0to2PI_b64_def
    by (simp only: d1 u1 d2 u0 nz option.case not_False_eq_True simp_thms)
qed

text \<open>
  C8, as amended. On every processed frame except the first after a start, each axis's
  tilt angle from \<^verbatim>\<open>atan2f\<close> is passed through \<^verbatim>\<open>FormatAccelRange\<close> (\<open>\<pi> - angle\<close> if
  \<open>accelZ < 0\<close>; \<open>angle + 2\<pi>\<close> if \<open>accelZ > 0\<close> and \<open>angle < 0\<close>; unchanged otherwise)
  before it is published and used to update the complementary angle. On the first frame
  the raw \<^verbatim>\<open>atan2f\<close> angle is published and seeds the complementary angle.
\<close>

theorem accel_range_correction_skipped_on_first_frame:
  "let r = Acquire_frame h i sl; l' = snd r;
       rawX = atan2f (accel_x_si l')
                (sqrtf (accel_y_si l' * accel_y_si l' + accel_z_si l' * accel_z_si l'));
       rawY = atan2f (accel_y_si l')
                (sqrtf (accel_x_si l' * accel_x_si l' + accel_z_si l' * accel_z_si l'))
   in (\<not> first_run (snd sl) \<longrightarrow>
         accelAngleX l' = FormatAccelRange rawX (accel_z_si l')
         \<and> accelAngleY l' = FormatAccelRange rawY (accel_z_si l')
         \<and> compAngleX l' =
             CompFilterProcess (fst r) (compAngleX (snd sl)) (accelAngleX l') (- gyro_y_si l')
         \<and> compAngleY l' =
             CompFilterProcess (fst r) (compAngleY (snd sl)) (accelAngleY l') (gyro_x_si l'))
      \<and> (first_run (snd sl) \<longrightarrow>
           accelAngleX l' = rawX \<and> accelAngleY l' = rawY
           \<and> compAngleX l' = rawX \<and> compAngleY l' = rawY)
      \<and> m_accelAngleX (fst r) = accelAngleX l' * rad_to_deg h
      \<and> m_accelAngleY (fst r) = accelAngleY l' * rad_to_deg h
      \<and> m_compAngleX (fst r) = compAngleX l' * rad_to_deg h
      \<and> m_compAngleY (fst r) = compAngleY l' * rad_to_deg h
      \<and> (\<forall>a z. (z < 0 \<longrightarrow> FormatAccelRange a z = pi - a)
             \<and> (0 < z \<and> a < 0 \<longrightarrow> FormatAccelRange a z = a + 2 * pi)
             \<and> (z = 0 \<or> (0 < z \<and> 0 \<le> a) \<longrightarrow> FormatAccelRange a z = a))"
  unfolding Let_def
  apply (intro conjI impI allI)
  apply (simp_all add: Acquire_frame_def Let_def CompFilterProcess_def)
  apply (auto simp add: FormatAccelRange_def M_PI_def)
  done

theorem accel_range_correction_skipped_on_first_frame_witness:
  "first_run (snd fresh0)
   \<and> accelAngleX (snd (Acquire_frame hdr0 0 fresh0)) = 0
   \<and> \<not> first_run (snd (Acquire_frame hdr0 0 fresh0))
   \<and> accelAngleX (snd (Acquire_frame hdr0 19 (Acquire_frame hdr0 0 fresh0))) = pi
   \<and> m_accelAngleX (fst (Acquire_frame hdr0 19 (Acquire_frame hdr0 0 fresh0))) = pi * 57.2957795"
  using accel_range_correction_skipped_on_first_frame [where h = hdr0 and i = 0 and sl = fresh0]
    accel_range_correction_skipped_on_first_frame
      [where h = hdr0 and i = 19 and sl = "Acquire_frame hdr0 0 fresh0"]
  by (simp add: Let_def accel_si_Acquire_frame fresh0_simps sample_words hdr0_def raw_tilt_frame2
        FormatAccelRange_def M_PI_def)

text \<open>
  C8 as stated fails on the first frame: with an acceleration of -1 g on Z the published
  X tilt angle is the raw angle 0, where the range correction would give \<open>\<pi>\<close>.
\<close>

theorem first_frame_not_range_corrected_counterexample:
  "accelAngleX (snd first_frame2) \<noteq>
     FormatAccelRange
       (atan2f (accel_x_si (snd first_frame2))
          (sqrtf (accel_y_si (snd first_frame2) * accel_y_si (snd first_frame2)
                  + accel_z_si (snd first_frame2) * accel_z_si (snd first_frame2))))
       (accel_z_si (snd first_frame2))
   \<and> m_accelAngleX (fst first_frame2) \<noteq>
     FormatAccelRange
       (atan2f (accel_x_si (snd first_frame2))
          (sqrtf (accel_y_si (snd first_frame2) * accel_y_si (snd first_frame2)
                  + accel_z_si (snd first_frame2) * accel_z_si (snd first_frame2))))
       (accel_z_si (snd first_frame2)) * rad_to_deg hdr0"
  by (simp add: first_frame2_accel first_frame2_angle raw_tilt_frame2 FormatAccelRange_def M_PI_def hdr0_def)

text \<open>
  C9. \<^verbatim>\<open>SetYawAxis\<close> and \<^verbatim>\<open>ConfigCalTime\<close> are meant to return 2 whenever the
  configuration differs and the switch to standard SPI fails. On a streaming object whose
  device does not answer, the first \<^verbatim>\<open>SetYawAxis(kX)\<close> returns 2 and leaves
  \<^verbatim>\<open>m_auto_interrupt\<close> deleted but not reset; the configuration is unchanged, and the
  next \<^verbatim>\<open>SetYawAxis(kX)\<close>, or \<^verbatim>\<open>ConfigCalTime\<close> with a new time, deletes the pointer a
  second time instead of returning 2.
\<close>

theorem retry_after_failed_switch_deletes_twice:
  "\<exists>s1. SetYawAxis hdr0 kX imu0 = Inr (2, s1)
     \<and> m_yaw_axis s1 \<noteq> kX \<and> SetYawAxis hdr0 kX s1 = Inl DoubleDelete
     \<and> m_calibration_time s1 \<noteq> word_of_int 4 \<and> ConfigCalTime hdr0 4 s1 = Inl DoubleDelete"
proof -
  obtain s1 where s1: "SwitchToStandardSPI hdr0 imu0 = Inr (False, s1)" "m_spi s1"
    "m_auto_interrupt s1 = Dangling" "m_yaw_axis s1 = kZ" "m_calibration_time s1 = 7"
    using SwitchToStandardSPI_imu0 by blast
  have "SetYawAxis hdr0 kX imu0 = Inr (2, s1)"
    using s1(1) by (simp add: SetYawAxis_def imu0_def)
  moreover have "SwitchToStandardSPI hdr0 s1 = Inl DoubleDelete"
    using s1(2,3) by (rule SwitchToStandardSPI_double_delete)
  then have "SetYawAxis hdr0 kX s1 = Inl DoubleDelete" "ConfigCalTime hdr0 4 s1 = Inl DoubleDelete"
    using s1(4,5) by (simp_all add: SetYawAxis_def ConfigCalTime_def)
  ultimately show ?thesis using s1(4,5) by auto
qed

text \<open>
  C10. \<^verbatim>\<open>Reset\<close> sets the integrated angle to 0 and leaves the instantaneous gyro and
  accel readings, the complementary angles and the filtered accel angles unchanged.
\<close>

theorem Reset_only_integ_angle:
  "m_integ_angle (Reset s) = 0
   \<and> m_gyro_x (Reset s) = m_gyro_x s \<and> m_gyro_y (Reset s) = m_gyro_y s
   \<and> m_gyro_z (Reset s) = m_gyro_z s
   \<and> m_accel_x (Reset s) = m_accel_x s \<and> m_accel_y (Reset s) = m_accel_y s
   \<and> m_accel_z (Reset s) = m_accel_z s
   \<and> m_compAngleX (Reset s) = m_compAngleX s \<and> m_compAngleY (Reset s) = m_compAngleY s
   \<and> m_accelAngleX (Reset s) = m_accelAngleX s \<and> m_accelAngleY (Reset s) = m_accelAngleY s
   \<and> Reset s = s\<lparr>m_integ_angle := 0\<rparr>"
  by (simp add: Reset_def)

end
